theory Spec2Isabelle
  imports Main "HOL-Library.Multiset"
begin

section \<open>The relay subsystem of Icecast (src/slave.c)\<close>

text \<open>
  The development follows \<^verbatim>\<open>src/src/slave.c\<close>.  The struct declarations
  (\<^verbatim>\<open>relay_server\<close>, \<^verbatim>\<open>slave_host\<close>, \<^verbatim>\<open>source_t\<close>, \<^verbatim>\<open>ice_config_t\<close>) live in
  headers that are not part of the sources at hand; their fields are taken from the way
  \<^verbatim>\<open>slave.c\<close> uses them.  C strings are \<^typ>\<open>string\<close> (NUL-free byte lists), so
  \<^verbatim>\<open>strcmp (a, b) == 0\<close> is \<open>a = b\<close> and \<^verbatim>\<open>strlen\<close> is \<^const>\<open>length\<close>;
  a nullable \<^verbatim>\<open>char *\<close> is a \<^typ>\<open>string option\<close>.  The \<^verbatim>\<open>int\<close> fields
  are \<^typ>\<open>int\<close>: the code only compares them, tests them against zero and steps
  counters by one; a number that the C library reads from a text into an \<^verbatim>\<open>int\<close>
  (\<^verbatim>\<open>atoi\<close>, \<^verbatim>\<open>%d\<close> of \<^verbatim>\<open>sscanf\<close>) is reduced to 32 bits where it is
  read.  A singly linked list (\<^verbatim>\<open>next\<close> pointers) is a HOL list, head first;
  unlinking a node removes it from the list, pushing a node conses it.  An allocation
  that the code tests (\<^verbatim>\<open>calloc\<close> in \<^verbatim>\<open>relay_copy\<close> and \<^verbatim>\<open>_add_slave_host\<close>,
  \<^verbatim>\<open>malloc\<close> in \<^verbatim>\<open>slave_redirect\<close>) may fail in the model; the others
  (\<^verbatim>\<open>strdup\<close> and the buffers of the worker) are taken to succeed.
\<close>

subsection \<open>Relay records\<close>

record relay_server =
  server :: string
  port :: int
  mount :: string
  localmount :: string
  username :: "string option"
  password :: "string option"
  mp3metadata :: int
  on_demand :: int
  enable :: int
  source :: "nat option"
  running :: int
  cleanup :: int
  thread :: "nat option"

datatype error = NullDeref

text \<open>
  \<^verbatim>\<open>relay_copy\<close>: \<^verbatim>\<open>calloc\<close> either yields a zeroed record (the flag is
  \<open>True\<close>) or \<^verbatim>\<open>NULL\<close>.  On success the strings and the settings are duplicated, the
  source pointer moves to the copy and the original loses it.  The result is the copy
  (if any) together with the argument as the call leaves it.
\<close>

definition relay_copy :: "bool \<Rightarrow> relay_server \<Rightarrow> relay_server option \<times> relay_server" where
  "relay_copy calloc_ok r =
     (if calloc_ok
      then (Some \<lparr> server = server r, port = port r, mount = mount r,
                   localmount = localmount r,
                   username = username r, password = password r,
                   mp3metadata = mp3metadata r, on_demand = on_demand r,
                   enable = enable r, source = source r,
                   running = 0, cleanup = 0, thread = None \<rparr>,
            r\<lparr>source := None\<rparr>)
      else (None, r))"

text \<open>
  \<^verbatim>\<open>relay_has_changed (new, old)\<close>: the return code together with \<open>old\<close> as the
  call leaves it.
\<close>

definition relay_has_changed :: "relay_server \<Rightarrow> relay_server \<Rightarrow> int \<times> relay_server" where
  "relay_has_changed new old =
     (if mount new \<noteq> mount old then (1, old)
      else if server new \<noteq> server old then (1, old)
      else if port new \<noteq> port old then (1, old)
      else if mp3metadata new \<noteq> mp3metadata old then (1, old)
      else (0, if on_demand new \<noteq> on_demand old
               then old\<lparr>on_demand := on_demand new\<rparr> else old))"

text \<open>
  The inner loop of \<^verbatim>\<open>update_relay_set\<close>: walk \<open>current\<close> with
  \<open>existing_relay\<close>/\<open>existing_p\<close> until a record with the same local mount is found
  for which \<^verbatim>\<open>relay_has_changed\<close> returns 0.  The result is that record (as
  \<^verbatim>\<open>relay_has_changed\<close> left it), or \<open>None\<close> for \<^verbatim>\<open>existing_relay == NULL\<close>,
  and the list \<open>current\<close> after \<^verbatim>\<open>*existing_p = existing_relay->next\<close>.
\<close>

fun scan_existing :: "relay_server \<Rightarrow> relay_server list \<Rightarrow> relay_server option \<times> relay_server list" where
  "scan_existing relay [] = (None, [])"
| "scan_existing relay (existing_relay # rest) =
     (if localmount relay = localmount existing_relay
      then (case relay_has_changed relay existing_relay of
              (rc, existing_relay') \<Rightarrow>
                if rc = 0 then (Some existing_relay', rest)
                else (case scan_existing relay rest of
                        (found, rest') \<Rightarrow> (found, existing_relay' # rest')))
      else (case scan_existing relay rest of
              (found, rest') \<Rightarrow> (found, existing_relay # rest')))"

text \<open>
  The outer loop of \<^verbatim>\<open>update_relay_set\<close>.  \<open>avail\<close> is the number of records
  \<^verbatim>\<open>calloc\<close> can still hand out.  When \<^verbatim>\<open>relay_copy\<close> returns \<^verbatim>\<open>NULL\<close> the
  code goes on to write \<^verbatim>\<open>existing_relay->next\<close>: a null dereference.
  The result is \<open>(new_list, current, updated)\<close>, the two argument lists as the call
  leaves them.
\<close>

fun update_relay_set_loop ::
  "nat \<Rightarrow> relay_server list \<Rightarrow> relay_server list \<Rightarrow> relay_server list
     \<Rightarrow> error + (relay_server list \<times> relay_server list \<times> relay_server list)" where
  "update_relay_set_loop avail current [] new_list = Inr (new_list, current, [])"
| "update_relay_set_loop avail current (relay # rest) new_list =
     (case scan_existing relay current of
        (Some existing_relay, current') \<Rightarrow>
          (case update_relay_set_loop avail current' rest (existing_relay # new_list) of
             Inl e \<Rightarrow> Inl e
           | Inr (nl, cur, upd) \<Rightarrow> Inr (nl, cur, relay # upd))
      | (None, current') \<Rightarrow>
          (case relay_copy (0 < avail) relay of
             (None, relay') \<Rightarrow> Inl NullDeref
           | (Some copy, relay') \<Rightarrow>
               (case update_relay_set_loop (avail - 1) current' rest (copy # new_list) of
                  Inl e \<Rightarrow> Inl e
                | Inr (nl, cur, upd) \<Rightarrow> Inr (nl, cur, relay' # upd))))"

definition update_relay_set ::
  "nat \<Rightarrow> relay_server list \<Rightarrow> relay_server list
     \<Rightarrow> error + (relay_server list \<times> relay_server list \<times> relay_server list)" where
  "update_relay_set avail current updated = update_relay_set_loop avail current updated []"

text \<open>
  \<^verbatim>\<open>update_relays\<close>: the result is \<open>(cleanup_relays, *relay_list, new_relay_list)\<close>
  after the call.
\<close>

definition update_relays ::
  "nat \<Rightarrow> relay_server list \<Rightarrow> relay_server list
     \<Rightarrow> error + (relay_server list \<times> relay_server list \<times> relay_server list)" where
  "update_relays avail relay_list new_relay_list =
     (case update_relay_set avail relay_list new_relay_list of
        Inl e \<Rightarrow> Inl e
      | Inr (active_relays, cleanup_relays, upd) \<Rightarrow> Inr (cleanup_relays, active_relays, upd))"

text \<open>
  The specification's notions, in its own words: two records are materially equivalent
  iff server, mount, port and mp3 metadata are equal; a record of \<open>updated\<close> is matched
  by a record of \<open>current\<close> with the same local mount that is materially equivalent.
\<close>

definition materially_equivalent :: "relay_server \<Rightarrow> relay_server \<Rightarrow> bool" where
  "materially_equivalent d e \<longleftrightarrow>
     server d = server e \<and> mount d = mount e \<and> port d = port e \<and> mp3metadata d = mp3metadata e"

definition matches :: "relay_server \<Rightarrow> relay_server \<Rightarrow> bool" where
  "matches d e \<longleftrightarrow> localmount d = localmount e \<and> materially_equivalent d e"

definition promote :: "relay_server \<Rightarrow> relay_server \<Rightarrow> relay_server" where
  "promote d e = e\<lparr>on_demand := on_demand d\<rparr>"

definition introduce :: "relay_server \<Rightarrow> relay_server" where
  "introduce d = \<lparr> server = server d, port = port d, mount = mount d,
                   localmount = localmount d,
                   username = username d, password = password d,
                   mp3metadata = mp3metadata d, on_demand = on_demand d,
                   enable = enable d, source = source d,
                   running = 0, cleanup = 0, thread = None \<rparr>"

definition keep_or_new :: "relay_server list \<Rightarrow> relay_server \<Rightarrow> relay_server" where
  "keep_or_new current d =
     (case find (matches d) current of Some e \<Rightarrow> promote d e | None \<Rightarrow> introduce d)"

text \<open>A record apart from its on-demand flag, the one field that promotion writes.\<close>

definition without_on_demand :: "relay_server \<Rightarrow> relay_server" where
  "without_on_demand r = r\<lparr>on_demand := 0\<rparr>"

definition relay_key :: "relay_server \<Rightarrow> string \<times> string \<times> string \<times> int \<times> int" where
  "relay_key r = (localmount r, server r, mount r, port r, mp3metadata r)"

text \<open>Sample records: two running relays, and a configuration that keeps \<open>/a\<close>
  (switching it to on-demand), drops \<open>/b\<close> and adds \<open>/c\<close>.\<close>

definition relay_a :: relay_server where
  "relay_a = \<lparr> server = ''up'', port = 8000, mount = ''/a'', localmount = ''/a'',
               username = None, password = None, mp3metadata = 1, on_demand = 0,
               enable = 1, source = Some 1, running = 1, cleanup = 0, thread = Some 7 \<rparr>"

definition relay_b :: relay_server where
  "relay_b = \<lparr> server = ''up'', port = 8000, mount = ''/b'', localmount = ''/b'',
               username = None, password = None, mp3metadata = 1, on_demand = 0,
               enable = 1, source = Some 2, running = 1, cleanup = 0, thread = Some 8 \<rparr>"

definition conf_a :: relay_server where
  "conf_a = \<lparr> server = ''up'', port = 8000, mount = ''/a'', localmount = ''/a'',
              username = None, password = None, mp3metadata = 1, on_demand = 1,
              enable = 1, source = None, running = 0, cleanup = 0, thread = None \<rparr>"

definition conf_c :: relay_server where
  "conf_c = \<lparr> server = ''up'', port = 8000, mount = ''/c'', localmount = ''/c'',
              username = Some ''u'', password = Some ''p'', mp3metadata = 0, on_demand = 0,
              enable = 1, source = Some 3, running = 0, cleanup = 0, thread = None \<rparr>"

subsection \<open>The slave host table\<close>

text \<open>
  A \<^verbatim>\<open>slave_host\<close> has a server name, a port and a reference count (the field names
  carry a prefix here; \<open>server\<close> and \<open>port\<close> are already fields of a relay).  Of the
  global state, \<^verbatim>\<open>global.slaves\<close> (the linked list, head first) and
  \<^verbatim>\<open>global.slave_count\<close> matter.  The object \<^verbatim>\<open>global\<close> is a zero-initialised
  static of \<^verbatim>\<open>global.c\<close>: no entries and a count of zero.
\<close>

record slave_host =
  sh_server :: string
  sh_port :: int
  sh_count :: int

record global_t =
  slaves :: "slave_host list"
  slave_count :: int

definition global_initial :: global_t where
  "global_initial = \<lparr> slaves = [], slave_count = 0 \<rparr>"

text \<open>
  Of a client, \<^verbatim>\<open>slave.c\<close> reads the variables of its parser only:
  \<^verbatim>\<open>httpp_getvar (client->parser, name)\<close> is a lookup that may yield \<^verbatim>\<open>NULL\<close>.
\<close>

type_synonym client_t = "string \<rightharpoonup> string"

definition httpp_getvar :: "client_t \<Rightarrow> string \<Rightarrow> string option" where
  "httpp_getvar parser name = parser name"

text \<open>
  \<^verbatim>\<open>atoi (nptr)\<close> of the C library is \<^verbatim>\<open>(int) strtol (nptr, NULL, 10)\<close>.
  \<^verbatim>\<open>strtol\<close> skips white space, reads an optional sign and then the decimal digits
  up to the first other character; no digits give 0.  Its result is a \<^verbatim>\<open>long\<close> of
  64 bits, and a number beyond that range is replaced by \<^verbatim>\<open>LONG_MAX\<close> or
  \<^verbatim>\<open>LONG_MIN\<close>.  The conversion to the 32-bit \<^verbatim>\<open>int\<close> keeps the low 32 bits
  (two's complement), so the text \<open>4294967297\<close> is the \<^verbatim>\<open>int\<close> 1.
\<close>

definition isspace :: "char \<Rightarrow> bool" where
  "isspace c \<longleftrightarrow> c \<in> {CHR '' '', CHR 0x09, CHR 0x0A, CHR 0x0B, CHR 0x0C, CHR 0x0D}"

definition isdigit :: "char \<Rightarrow> bool" where
  "isdigit c \<longleftrightarrow> 48 \<le> (of_char c :: nat) \<and> (of_char c :: nat) \<le> 57"

fun digits_value :: "int \<Rightarrow> string \<Rightarrow> int" where
  "digits_value acc [] = acc"
| "digits_value acc (c # cs) =
     (if isdigit c then digits_value (acc * 10 + (of_char c - 48)) cs else acc)"

definition long_range :: "int \<Rightarrow> int" where
  "long_range v = max (- 9223372036854775808) (min 9223372036854775807 v)"

definition int_of_long :: "int \<Rightarrow> int" where
  "int_of_long v = (v + 2147483648) mod 4294967296 - 2147483648"

definition strtol :: "string \<Rightarrow> int" where
  "strtol nptr =
     long_range
       (case dropWhile isspace nptr of
          [] \<Rightarrow> 0
        | c # cs \<Rightarrow>
            if c = CHR ''-'' then - digits_value 0 cs
            else if c = CHR ''+'' then digits_value 0 cs
            else digits_value 0 (c # cs))"

definition atoi :: "string \<Rightarrow> int" where
  "atoi nptr = int_of_long (strtol nptr)"

text \<open>
  Both \<^verbatim>\<open>slave_host_add\<close> and \<^verbatim>\<open>slave_host_remove\<close> cut the header at its first
  colon (\<^verbatim>\<open>strchr\<close>, \<^verbatim>\<open>*separator = '\0'\<close>): the server (\<open>srv\<close>) is the text
  before it and the port (\<open>prt\<close>) is \<^verbatim>\<open>atoi (separator+1)\<close>.
\<close>

definition header_server :: "string \<Rightarrow> string" where
  "header_server h = takeWhile (\<lambda>c. c \<noteq> CHR '':'') h"

definition header_port :: "string \<Rightarrow> int" where
  "header_port h = atoi (tl (dropWhile (\<lambda>c. c \<noteq> CHR '':'') h))"

text \<open>
  \<^verbatim>\<open>find_slave_host\<close> walks the list to the first entry with the given server and
  port.  The pointer it returns is the position of that entry in the list.
\<close>

fun walk_index :: "slave_host list \<Rightarrow> string \<Rightarrow> int \<Rightarrow> nat option" where
  "walk_index [] srv prt = None"
| "walk_index (slave # rest) srv prt =
     (if sh_server slave = srv \<and> sh_port slave = prt then Some 0
      else map_option Suc (walk_index rest srv prt))"

definition find_slave_host :: "global_t \<Rightarrow> string \<Rightarrow> int \<Rightarrow> nat option" where
  "find_slave_host g srv prt = walk_index (slaves g) srv prt"

text \<open>\<^verbatim>\<open>_add_slave_host\<close>; the flag tells whether \<^verbatim>\<open>calloc\<close> succeeds.\<close>

definition add_slave_host :: "bool \<Rightarrow> string \<Rightarrow> int \<Rightarrow> global_t \<Rightarrow> global_t" where
  "add_slave_host calloc_ok srv prt g =
     (if \<not> calloc_ok then g
      else g\<lparr> slaves := \<lparr> sh_server = srv, sh_port = prt, sh_count = 1 \<rparr> # slaves g,
              slave_count := slave_count g + 1 \<rparr>)"

definition slave_host_add ::
  "bool \<Rightarrow> client_t option \<Rightarrow> string option \<Rightarrow> global_t \<Rightarrow> global_t" where
  "slave_host_add calloc_ok client header g =
     (case (client, header) of
        (None, _) \<Rightarrow> g
      | (_, None) \<Rightarrow> g
      | (Some c, Some h) \<Rightarrow>
          if CHR '':'' \<notin> set h then g
          else
            let srv = header_server h;
                prt = header_port h
            in (case find_slave_host g srv prt of
                  Some i \<Rightarrow>
                    g\<lparr> slaves := (slaves g)
                         [i := (slaves g ! i)\<lparr> sh_count := sh_count (slaves g ! i) + 1 \<rparr>] \<rparr>
                | None \<Rightarrow> add_slave_host calloc_ok srv prt g))"

text \<open>
  The loop of \<^verbatim>\<open>slave_host_remove\<close> with its \<open>trail\<close> pointer; it carries
  \<^verbatim>\<open>global.slave_count\<close> along and stops at the first entry that matches.
\<close>

fun slave_host_remove_loop ::
  "string \<Rightarrow> int \<Rightarrow> slave_host list \<Rightarrow> int \<Rightarrow> slave_host list \<times> int" where
  "slave_host_remove_loop srv prt [] n = ([], n)"
| "slave_host_remove_loop srv prt (slave # rest) n =
     (if sh_server slave = srv \<and> sh_port slave = prt
      then (let slave' = slave\<lparr> sh_count := sh_count slave - 1 \<rparr>
            in if sh_count slave' = 0 then (rest, n - 1) else (slave' # rest, n))
      else (case slave_host_remove_loop srv prt rest n of
              (rest', n') \<Rightarrow> (slave # rest', n')))"

definition slave_host_remove :: "client_t \<Rightarrow> global_t \<Rightarrow> global_t" where
  "slave_host_remove client g =
     (case httpp_getvar client ''ice-redirect'' of
        None \<Rightarrow> g
      | Some var \<Rightarrow>
          if CHR '':'' \<notin> set var then g
          else
            let srv = header_server var;
                prt = header_port var
            in (case slave_host_remove_loop srv prt (slaves g) (slave_count g) of
                  (slaves', n') \<Rightarrow> g\<lparr> slaves := slaves', slave_count := n' \<rparr>))"

definition slave_table_inv :: "global_t \<Rightarrow> bool" where
  "slave_table_inv g \<longleftrightarrow>
     slave_count g = int (length (slaves g)) \<and> (\<forall>s \<in> set (slaves g). 1 \<le> sh_count s)"

text \<open>
  A text is numeric for \<^verbatim>\<open>atoi\<close> when, after its leading white space and one
  optional sign, it goes on with a digit.
\<close>

definition numeric :: "string \<Rightarrow> bool" where
  "numeric s \<longleftrightarrow>
     (case dropWhile isspace s of
        [] \<Rightarrow> False
      | c # cs \<Rightarrow>
          if c = CHR ''-'' \<or> c = CHR ''+'' then (case cs of [] \<Rightarrow> False | d # _ \<Rightarrow> isdigit d)
          else isdigit c)"

text \<open>Sample tables and clients.\<close>

definition host_x :: slave_host where
  "host_x = \<lparr> sh_server = ''x'', sh_port = 1, sh_count = 2 \<rparr>"

definition host_y :: slave_host where
  "host_y = \<lparr> sh_server = ''y'', sh_port = 2, sh_count = 1 \<rparr>"

definition table_xy :: global_t where
  "table_xy = \<lparr> slaves = [host_x, host_y], slave_count = 2 \<rparr>"

definition client_of :: "string \<Rightarrow> client_t" where
  "client_of h = [''ice-redirect'' \<mapsto> h]"

subsection \<open>Redirecting a client to a slave host\<close>

text \<open>
  \<^verbatim>\<open>%d\<close> of \<^verbatim>\<open>printf\<close>: the decimal digits, with a minus sign for a negative
  number.
\<close>

definition digit_char :: "nat \<Rightarrow> char" where
  "digit_char d = ''0123456789'' ! d"

fun digits_of :: "nat \<Rightarrow> string" where
  "digits_of n =
     (if n < 10 then [digit_char n]
      else digits_of (n div 10) @ [digit_char (n mod 10)])"

declare digits_of.simps [simp del]

definition show_int :: "int \<Rightarrow> string" where
  "show_int i = (if i < 0 then CHR ''-'' # digits_of (nat (- i)) else digits_of (nat i))"

text \<open>
  \<^verbatim>\<open>snprintf (buf, size, ...)\<close> stores at most \<open>size - 1\<close> characters of the
  formatted text (and the terminating NUL).
\<close>

definition snprintf :: "nat \<Rightarrow> string \<Rightarrow> string" where
  "snprintf sz formatted = take (sz - 1) formatted"

text \<open>The loop \<^verbatim>\<open>while (slave && which) { slave = slave->next; which--; }\<close>.\<close>

fun walk_which :: "slave_host list \<Rightarrow> int \<Rightarrow> slave_host list" where
  "walk_which [] which = []"
| "walk_which (slave # rest) which =
     (if which \<noteq> 0 then walk_which rest (which - 1) else slave # rest)"

text \<open>
  \<^verbatim>\<open>slave_redirect\<close>.  \<open>which\<close> is the value of the floating-point expression over
  \<^verbatim>\<open>rand()\<close> and \<open>malloc_ok\<close> tells whether \<^verbatim>\<open>malloc\<close> succeeds.  After the walk
  the code logs \<^verbatim>\<open>slave->server\<close> without a test, so a walk that runs off the list
  is a null dereference.  The result is the return code together with the location
  handed to \<^verbatim>\<open>client_send_302\<close>, if it is called.
\<close>

definition slave_redirect ::
  "bool \<Rightarrow> int \<Rightarrow> string \<Rightarrow> global_t \<Rightarrow> error + (int \<times> string option)" where
  "slave_redirect malloc_ok which mountpoint g =
     (if slave_count g \<noteq> 0
      then (case walk_which (slaves g) which of
              [] \<Rightarrow> Inl NullDeref
            | slave # _ \<Rightarrow>
                let len = length mountpoint + length (sh_server slave) + 13
                in if malloc_ok
                   then Inr (1, Some (snprintf len
                          (''http://'' @ sh_server slave @ '':'' @ show_int (sh_port slave)
                             @ mountpoint)))
                   else Inr (0, None))
      else Inr (0, None))"

subsection \<open>Sources, configuration and the trace of calls into other modules\<close>

text \<open>
  A \<^verbatim>\<open>source_t\<close> is known to \<^verbatim>\<open>slave.c\<close> by the fields below (the prefix
  \<open>src_\<close> where a relay has a field of the same name).  Source objects are addressed
  by pointers, here natural numbers, and live in a store; two pointers may be equal.
  Of the configuration the host name, the redirect port, the mount entries and the
  settings for the master server matter (\<open>config_on_demand\<close> is its field
  \<^verbatim>\<open>on_demand\<close>); what a mount entry holds is the business of
  \<^verbatim>\<open>source_update_settings\<close>, so its type is left open.
\<close>

record source_t =
  fallback_mount :: "string option"
  fallback_override :: int
  on_demand_req :: int
  src_on_demand :: int
  src_running :: int
  listeners :: nat
  yp_public :: int

type_synonym source_store = "nat \<Rightarrow> source_t"

record 'm ice_config_t =
  hostname :: string
  master_redirect_port :: int
  mounts :: "string \<rightharpoonup> 'm"
  master_server :: "string option"
  master_server_port :: int
  master_ssl_port :: int
  master_username :: string
  master_password :: "string option"
  master_relay_auth :: int
  config_on_demand :: int

definition config_find_mount :: "'m ice_config_t \<Rightarrow> string \<Rightarrow> 'm option" where
  "config_find_mount config mnt = mounts config mnt"

text \<open>
  The functions of the other modules (sockets, parser, client, source, stats, threads,
  locks) are not part of \<^verbatim>\<open>slave.c\<close>.  A call to one of them is recorded as an
  event, in the order of the calls; what the call returns is an input of the model.
\<close>

datatype loglevel = ERROR | WARN | INFO | DEBUG

datatype event =
    Log loglevel string
  | Sock_connect_wto string int
  | Connection_create
  | Sock_write string
  | Util_read_header
  | Httpp_create_parser
  | Httpp_parse_response
  | Global_lock
  | Global_unlock
  | Client_create nat
  | Client_set_queue nat
  | Connection_complete_source nat
  | Stats_event_inc string
  | Stats_event string "string option" "string option"
  | Source_main nat
  | Yp_remove string
  | Avl_tree_rlock
  | Avl_tree_unlock
  | Source_find_mount string
  | Source_move_clients nat nat
  | Connection_close
  | Httpp_destroy
  | Source_clear_source nat
  | Source_reserve string
  | Source_update_settings nat bool
  | Source_free_source nat
  | Thread_create string
  | Thread_join "nat option"
  | Relay_lock
  | Relay_unlock

definition CRLF :: string where
  "CRLF = [CHR 0x0D, CHR 0x0A]"

subsection \<open>The relay worker\<close>

text \<open>
  The request that \<^verbatim>\<open>start_relay_stream\<close> writes with \<^verbatim>\<open>sock_write\<close>, built as
  the code builds it: the two optional headers come out of the branch on
  \<^verbatim>\<open>relay->username && relay->password\<close>, each through \<^verbatim>\<open>snprintf\<close> into a
  buffer of the computed length.  \<^verbatim>\<open>util_base64_encode\<close> and the version string
  \<^verbatim>\<open>ICECAST_VERSION_STRING\<close> are parameters.
\<close>

definition start_relay_stream_request ::
  "(string \<Rightarrow> string) \<Rightarrow> string \<Rightarrow> 'm ice_config_t \<Rightarrow> relay_server \<Rightarrow> string" where
  "start_relay_stream_request util_base64_encode version config relay =
     (let (auth_header, redirect_header) =
        (case (username relay, password relay) of
           (Some user, Some pass) \<Rightarrow>
             (let len = length user + length pass + 2;
                  auth_header = snprintf len (user @ '':'' @ pass);
                  esc_authorisation = util_base64_encode auth_header;
                  len = length esc_authorisation + 24;
                  auth_header = snprintf len (''Authorization: Basic '' @ esc_authorisation @ CRLF);
                  redirect_header =
                    (if master_redirect_port config \<noteq> 0
                     then (let len = length ''ice-redirect:'' + length (hostname config) + 10
                           in snprintf len (''ice-redirect: '' @ hostname config @ '':''
                                @ show_int (master_redirect_port config) @ CRLF))
                     else '''')
              in (auth_header, redirect_header))
         | _ \<Rightarrow> ('''', ''''))
      in ''GET '' @ mount relay @ '' HTTP/1.0'' @ CRLF
         @ ''User-Agent: '' @ version @ CRLF
         @ (if mp3metadata relay \<noteq> 0 then ''Icy-MetaData: 1'' @ CRLF else '''')
         @ redirect_header
         @ auth_header
         @ CRLF)"

text \<open>
  What the steps of one run return: whether \<^verbatim>\<open>sock_connect_wto\<close> gave a socket,
  whether \<^verbatim>\<open>util_read_header\<close> returned non-zero, whether
  \<^verbatim>\<open>httpp_parse_response\<close> returned non-zero, the parser's error message variable,
  whether \<^verbatim>\<open>client_create\<close> and \<^verbatim>\<open>connection_complete_source\<close> returned a
  value that is not negative.
\<close>

record worker_env =
  connect_ok :: bool
  header_ok :: bool
  parse_ok :: bool
  error_message :: "string option"
  client_create_ok :: bool
  complete_ok :: bool

text \<open>
  The state a run leaves: the relay record, the source store, the flag
  \<^verbatim>\<open>rescan_relays\<close> and the events of the run.  (The messages of the log calls are
  shortened to their leading words.)
\<close>

record worker_result =
  wr_relay :: relay_server
  wr_sources :: source_store
  wr_rescan_relays :: int
  wr_events :: "event list"

text \<open>
  The code after the \<^verbatim>\<open>do { ... } while (0)\<close> block, reached by every
  \<^verbatim>\<open>break\<close>; \<open>con\<close> and \<open>parser\<close> tell whether the two local pointers are
  non-null at that point.  \<open>source_find_mount\<close> is the lookup in the source tree.
\<close>

definition start_relay_stream_failed ::
  "(string \<Rightarrow> nat option) \<Rightarrow> source_store \<Rightarrow> relay_server \<Rightarrow> nat
     \<Rightarrow> event list \<Rightarrow> bool \<Rightarrow> bool \<Rightarrow> worker_result" where
  "start_relay_stream_failed source_find_mount sources relay src evs con parser =
     (let evs = evs @
            (case fallback_mount (sources src) of
               None \<Rightarrow> []
             | Some fb \<Rightarrow>
                 [Log DEBUG ''failed relay, fallback'', Avl_tree_rlock, Source_find_mount fb]
                 @ (case source_find_mount fb of
                      None \<Rightarrow> []
                    | Some fallback_source \<Rightarrow> [Source_move_clients src fallback_source])
                 @ [Avl_tree_unlock]);
          evs = evs @ (if con then [Connection_close] else []);
          evs = evs @ (if parser then [Httpp_destroy] else []);
          evs = evs @ [Source_clear_source src]
      in \<lparr> wr_relay = relay\<lparr> cleanup := 1 \<rparr>, wr_sources = sources,
           wr_rescan_relays = 1, wr_events = evs \<rparr>)"

text \<open>
  \<^verbatim>\<open>start_relay_stream\<close>.  The record must have a source: the code reads
  \<^verbatim>\<open>relay->source\<close> without a test.
\<close>

definition start_relay_stream ::
  "(string \<Rightarrow> string) \<Rightarrow> string \<Rightarrow> 'm ice_config_t \<Rightarrow> (string \<Rightarrow> nat option) \<Rightarrow> worker_env
     \<Rightarrow> source_store \<Rightarrow> relay_server \<Rightarrow> error + worker_result" where
  "start_relay_stream util_base64_encode version config source_find_mount env sources relay0 =
     (case source relay0 of
        None \<Rightarrow> Inl NullDeref
      | Some src \<Rightarrow>
          let relay = relay0\<lparr> running := 1 \<rparr>;
              failed = start_relay_stream_failed source_find_mount sources relay src;
              evs = [Log INFO ''Starting relayed source at mountpoint'',
                     Sock_connect_wto (server relay) (port relay)]
          in
          if \<not> connect_ok env
          then Inr (failed (evs @ [Log WARN ''Failed to relay stream from master server'']) False False)
          else
            let evs = evs @ [Connection_create,
                       Sock_write (start_relay_stream_request util_base64_encode version config relay),
                       Util_read_header]
            in
            if \<not> header_ok env
            then Inr (failed (evs @ [Log WARN ''Header read failed'']) True False)
            else
              let evs = evs @ [Httpp_create_parser, Httpp_parse_response] in
              if \<not> parse_ok env
              then Inr (failed (evs @ [Log ERROR ''Error parsing relay request'']) True True)
              else if error_message env \<noteq> None
              then Inr (failed (evs @ [Log ERROR ''Error from relay request'']) True True)
              else
                let evs = evs @ [Global_lock, Client_create src, Global_unlock] in
                if \<not> client_create_ok env
                then Inr (failed evs False False)
                else
                  let evs = evs @ [Client_set_queue src, Connection_complete_source src] in
                  if \<not> complete_ok env
                  then Inr (failed (evs @ [Log DEBUG ''Failed to complete source initialisation'']) False False)
                  else
                    let evs = evs @ [Stats_event_inc ''source_relay_connections'',
                                     Stats_event (localmount relay) (Some ''source_ip'') (Some (server relay)),
                                     Source_main src]
                    in Inr (if on_demand relay = 0
                            then \<lparr> wr_relay = relay\<lparr> cleanup := 1 \<rparr>,
                                   wr_sources = sources(src := (sources src)\<lparr> yp_public := - 1 \<rparr>),
                                   wr_rescan_relays = 1,
                                   wr_events = evs @ [Yp_remove (localmount relay)] \<rparr>
                            else \<lparr> wr_relay = relay\<lparr> cleanup := 1 \<rparr>,
                                   wr_sources = sources,
                                   wr_rescan_relays = 1,
                                   wr_events = evs \<rparr>))"

text \<open>
  The lines of a request: the pieces between the CR LF pairs.  The header lines are the
  lines after the request line and before the first empty line.
\<close>

fun crlf_lines :: "string \<Rightarrow> string \<Rightarrow> string list" where
  "crlf_lines cur (c # d # cs) =
     (if [c, d] = CRLF then rev cur # crlf_lines [] cs else crlf_lines (c # cur) (d # cs))"
| "crlf_lines cur [c] = [rev (c # cur)]"
| "crlf_lines cur [] = [rev cur]"

definition header_lines :: "string \<Rightarrow> string list" where
  "header_lines request = takeWhile (\<lambda>l. l \<noteq> []) (tl (crlf_lines [] request))"

text \<open>Sample configuration and a relay without credentials.\<close>

definition config_8001 :: "unit ice_config_t" where
  "config_8001 =
     \<lparr> hostname = ''me'', master_redirect_port = 8001, mounts = Map.empty,
       master_server = Some ''master'', master_server_port = 8000, master_ssl_port = 0,
       master_username = ''relay'', master_password = Some ''hackme'',
       master_relay_auth = 0, config_on_demand = 0 \<rparr>"

definition relay_plain :: relay_server where
  "relay_plain = \<lparr> server = ''up'', port = 8000, mount = ''/m'', localmount = ''/m'',
                   username = None, password = None, mp3metadata = 1, on_demand = 0,
                   enable = 1, source = Some 1, running = 0, cleanup = 0, thread = None \<rparr>"

definition relay_auth :: relay_server where
  "relay_auth = relay_plain\<lparr> username := Some ''u'', password := Some ''p'' \<rparr>"

definition source_idle :: source_t where
  "source_idle = \<lparr> fallback_mount = None, fallback_override = 0, on_demand_req = 0,
                   src_on_demand = 0, src_running = 0, listeners = 0, yp_public = 0 \<rparr>"

text \<open>
  A failed run is told by the first step that fails.  \<open>con_at_break\<close> and
  \<open>parser_at_break\<close> say whether the local pointers \<^verbatim>\<open>con\<close> and \<^verbatim>\<open>parser\<close> of
  \<^verbatim>\<open>start_relay_stream\<close> are non-null when the code leaves its block at that
  failure: \<^verbatim>\<open>con\<close> is set by \<^verbatim>\<open>connection_create\<close>, \<^verbatim>\<open>parser\<close> by
  \<^verbatim>\<open>httpp_create_parser\<close>, and the code sets both to \<^verbatim>\<open>NULL\<close> after the
  call of \<^verbatim>\<open>client_create\<close>, in the branch for its failure as well as after its
  success.
\<close>

datatype failure =
  Connect_failed | Header_failed | Parse_failed | Parser_error | Client_failed | Complete_failed

definition first_failure :: "worker_env \<Rightarrow> failure option" where
  "first_failure env =
     (if \<not> connect_ok env then Some Connect_failed
      else if \<not> header_ok env then Some Header_failed
      else if \<not> parse_ok env then Some Parse_failed
      else if error_message env \<noteq> None then Some Parser_error
      else if \<not> client_create_ok env then Some Client_failed
      else if \<not> complete_ok env then Some Complete_failed
      else None)"

definition con_at_break :: "failure \<Rightarrow> bool" where
  "con_at_break f \<longleftrightarrow> f \<in> {Header_failed, Parse_failed, Parser_error}"

definition parser_at_break :: "failure \<Rightarrow> bool" where
  "parser_at_break f \<longleftrightarrow> f \<in> {Parse_failed, Parser_error}"

text \<open>
  The specification's reading of ownership: the worker owns the connection and the
  parser, each from its creation, until \<^verbatim>\<open>client_create\<close> succeeds; from then on
  they belong to the client.  So at a failure of \<^verbatim>\<open>client_create\<close> the worker still
  owns both.
\<close>

definition owns_connection :: "failure \<Rightarrow> bool" where
  "owns_connection f \<longleftrightarrow> f \<in> {Header_failed, Parse_failed, Parser_error, Client_failed}"

definition owns_parser :: "failure \<Rightarrow> bool" where
  "owns_parser f \<longleftrightarrow> f \<in> {Parse_failed, Parser_error, Client_failed}"

definition fallback_events :: "(string \<Rightarrow> nat option) \<Rightarrow> source_store \<Rightarrow> nat \<Rightarrow> event list" where
  "fallback_events source_find_mount sources src =
     (case fallback_mount (sources src) of
        None \<Rightarrow> []
      | Some fb \<Rightarrow>
          [Log DEBUG ''failed relay, fallback'', Avl_tree_rlock, Source_find_mount fb]
          @ (case source_find_mount fb of
               None \<Rightarrow> []
             | Some fallback_source \<Rightarrow> [Source_move_clients src fallback_source])
          @ [Avl_tree_unlock])"

definition is_release :: "event \<Rightarrow> bool" where
  "is_release e \<longleftrightarrow>
     (case e of
        Connection_close \<Rightarrow> True
      | Httpp_destroy \<Rightarrow> True
      | Source_clear_source _ \<Rightarrow> True
      | Source_move_clients _ _ \<Rightarrow> True
      | Source_main _ \<Rightarrow> True
      | _ \<Rightarrow> False)"

definition env_parse_error :: worker_env where
  "env_parse_error = \<lparr> connect_ok = True, header_ok = True, parse_ok = False,
                        error_message = None, client_create_ok = True, complete_ok = True \<rparr>"

definition env_client_failed :: worker_env where
  "env_client_failed = \<lparr> connect_ok = True, header_ok = True, parse_ok = True,
                        error_message = None, client_create_ok = False, complete_ok = True \<rparr>"

definition env_complete_failed :: worker_env where
  "env_complete_failed = \<lparr> connect_ok = True, header_ok = True, parse_ok = True,
                        error_message = None, client_create_ok = True, complete_ok = False \<rparr>"

definition sources_fb :: source_store where
  "sources_fb = (\<lambda>p. source_idle)(1 := source_idle\<lparr> fallback_mount := Some ''/fb'' \<rparr>)"

definition find_fb :: "string \<Rightarrow> nat option" where
  "find_fb = [''/fb'' \<mapsto> 2]"

subsection \<open>Starting and sweeping the relays\<close>

text \<open>
  The state the supervisor works on: the two relay lists, the source objects, the source
  tree (of a type \<open>'t\<close> that only the source module knows), the flags
  \<^verbatim>\<open>update_settings\<close> and \<^verbatim>\<open>rescan_relays\<close>, and the events so far.
\<close>

record 't world =
  w_relays :: "relay_server list"
  w_master_relays :: "relay_server list"
  w_sources :: source_store
  w_tree :: 't
  w_update_settings :: int
  w_rescan_relays :: int
  w_events :: "event list"

text \<open>
  The functions of the source and thread modules that \<^verbatim>\<open>slave.c\<close> calls for a
  result: \<^verbatim>\<open>source_reserve\<close> (a new source pointer, or \<^verbatim>\<open>NULL\<close> when the mount is
  taken, and the tree afterwards), \<^verbatim>\<open>source_find_mount\<close>,
  \<^verbatim>\<open>source_update_settings\<close> (the source object as it leaves it),
  \<^verbatim>\<open>source_free_source\<close> (the tree afterwards) and \<^verbatim>\<open>thread_create\<close> (the
  handle of the new thread for a relay, by its local mount).
\<close>

record ('m, 't) externals =
  x_source_reserve :: "'t \<Rightarrow> string \<Rightarrow> nat option \<times> 't"
  x_source_find_mount :: "'t \<Rightarrow> string \<Rightarrow> nat option"
  x_source_update_settings :: "'m ice_config_t \<Rightarrow> source_t \<Rightarrow> 'm option \<Rightarrow> source_t"
  x_source_free_source :: "'t \<Rightarrow> nat \<Rightarrow> 't"
  x_thread_create :: "string \<Rightarrow> nat option"

definition emit :: "event list \<Rightarrow> 't world \<Rightarrow> 't world" where
  "emit evs w = w\<lparr> w_events := w_events w @ evs \<rparr>"

text \<open>\<^verbatim>\<open>slave_rebuild_mounts\<close>.\<close>

definition slave_rebuild_mounts :: "'t world \<Rightarrow> 't world" where
  "slave_rebuild_mounts w = w\<lparr> w_update_settings := 1, w_rescan_relays := 1 \<rparr>"

text \<open>
  The branch \<^verbatim>\<open>if (relay->on_demand)\<close> of \<^verbatim>\<open>check_relay_stream\<close>, for a relay
  whose source is \<open>src\<close>, up to the test of \<^verbatim>\<open>source->on_demand_req\<close>, in its two
  parts: the statements up to \<^verbatim>\<open>relay->source->on_demand = relay->on_demand\<close>, and
  the check of the fallback.
\<close>

definition check_relay_stream_settings ::
  "('m, 't) externals \<Rightarrow> 'm ice_config_t \<Rightarrow> relay_server \<Rightarrow> nat \<Rightarrow> 't world \<Rightarrow> 't world" where
  "check_relay_stream_settings ext config relay src w =
     (let mountinfo = config_find_mount config (localmount relay);
          w = (if mountinfo = None
               then emit [Source_update_settings src False]
                      (w\<lparr> w_sources := (w_sources w)
                            (src := x_source_update_settings ext config (w_sources w src) mountinfo) \<rparr>)
               else w);
          w = slave_rebuild_mounts w;
          w = emit [Stats_event (localmount relay) (Some ''listeners'') (Some ''0'')] w
      in w\<lparr> w_sources := (w_sources w)
              (src := (w_sources w src)\<lparr> src_on_demand := on_demand relay \<rparr>) \<rparr>)"

definition check_relay_stream_override ::
  "('m, 't) externals \<Rightarrow> nat \<Rightarrow> 't world \<Rightarrow> 't world" where
  "check_relay_stream_override ext src w =
     (case fallback_mount (w_sources w src) of
        None \<Rightarrow> w
      | Some fb \<Rightarrow>
          if fallback_override (w_sources w src) \<noteq> 0
          then
            (let w = emit [Log DEBUG ''checking for fallback override'', Avl_tree_rlock,
                           Source_find_mount fb] w;
                 w = (case x_source_find_mount ext (w_tree w) fb of
                        None \<Rightarrow> w
                      | Some fallback \<Rightarrow>
                          if src_running (w_sources w fallback) \<noteq> 0
                             \<and> listeners (w_sources w fallback) \<noteq> 0
                          then emit [Log DEBUG ''fallback running with listeners'']
                                 (w\<lparr> w_sources := (w_sources w)
                                       (src := (w_sources w src)\<lparr> on_demand_req := 1 \<rparr>) \<rparr>)
                          else w)
             in emit [Avl_tree_unlock] w)
          else w)"

definition check_relay_stream_on_demand ::
  "('m, 't) externals \<Rightarrow> 'm ice_config_t \<Rightarrow> relay_server \<Rightarrow> nat \<Rightarrow> 't world \<Rightarrow> 't world" where
  "check_relay_stream_on_demand ext config relay src w =
     check_relay_stream_override ext src (check_relay_stream_settings ext config relay src w)"

text \<open>
  The end of \<^verbatim>\<open>check_relay_stream\<close>, after the \<^verbatim>\<open>do { ... } while (0)\<close> block:
  a worker that has finished is joined.  With \<open>on_demand\<close> set the code hands
  \<^verbatim>\<open>relay->source\<close> to \<^verbatim>\<open>source_update_settings\<close> untested.
\<close>

definition check_relay_stream_sweep ::
  "('m, 't) externals \<Rightarrow> 'm ice_config_t \<Rightarrow> relay_server \<Rightarrow> 't world
     \<Rightarrow> error + (relay_server \<times> 't world)" where
  "check_relay_stream_sweep ext config relay w =
     (if cleanup relay \<noteq> 0 \<and> thread relay \<noteq> None
      then
        (let w = emit [Log DEBUG ''waiting for relay thread'', Thread_join (thread relay)] w;
             relay = relay\<lparr> thread := None, cleanup := 0, running := 0 \<rparr>
         in if enable relay = 0
            then Inr (relay, slave_rebuild_mounts (emit [Stats_event (localmount relay) None None] w))
            else if on_demand relay \<noteq> 0
            then (case source relay of
                    None \<Rightarrow> Inl NullDeref
                  | Some src \<Rightarrow>
                      let mountinfo = config_find_mount config (localmount relay);
                          w = emit [Source_update_settings src (mountinfo \<noteq> None)]
                                (w\<lparr> w_sources := (w_sources w)
                                      (src := x_source_update_settings ext config
                                                (w_sources w src) mountinfo) \<rparr>)
                      in Inr (relay,
                              emit [Stats_event (localmount relay) (Some ''listeners'') (Some ''0'')] w))
            else Inr (relay, w))
      else Inr (relay, w))"

text \<open>
  \<^verbatim>\<open>check_relay_stream\<close>.  \<^verbatim>\<open>relay->localmount[0] != '/'\<close> holds for the empty
  string too (its first byte is the NUL).
\<close>

definition check_relay_stream ::
  "('m, 't) externals \<Rightarrow> 'm ice_config_t \<Rightarrow> relay_server \<Rightarrow> 't world
     \<Rightarrow> error + (relay_server \<times> 't world)" where
  "check_relay_stream ext config relay0 w0 =
     (if source relay0 = None \<and> take 1 (localmount relay0) \<noteq> ''/''
      then Inr (relay0, emit [Log WARN ''relay mountpoint does not start with /, skipping''] w0)
      else
        let (relay, w) =
              (if source relay0 = None
               then (case x_source_reserve ext (w_tree w0) (localmount relay0) of
                       (reserved, tree) \<Rightarrow>
                         (relay0\<lparr> source := reserved \<rparr>,
                          emit [Source_reserve (localmount relay0),
                                if reserved \<noteq> None
                                then Log DEBUG ''Adding relay source at mountpoint''
                                else Log WARN ''new relay but source already exists'']
                            (w0\<lparr> w_tree := tree \<rparr>)))
               else (relay0, w0))
        in
        case source relay of
          None \<Rightarrow> check_relay_stream_sweep ext config relay w
        | Some src \<Rightarrow>
            if running relay \<noteq> 0 then check_relay_stream_sweep ext config relay w
            else if enable relay = 0
            then check_relay_stream_sweep ext config relay
                   (emit [Stats_event (localmount relay) None None] w)
            else
              let w = (if on_demand relay \<noteq> 0
                       then check_relay_stream_on_demand ext config relay src w else w)
              in if on_demand relay \<noteq> 0 \<and> on_demand_req (w_sources w src) = 0
                 then check_relay_stream_sweep ext config relay w
                 else Inr (relay\<lparr> thread := x_thread_create ext (localmount relay) \<rparr>,
                           emit [Thread_create (localmount relay)] w))"





text \<open>
  The specification's reading of the on-demand start check: the source as the check
  settles it (refreshed with the defaults only when the configuration has no entry for
  the mount, and carrying the relay's \<open>on_demand\<close>), and whether the fallback gives
  demand through the override.
\<close>

definition settled_source ::
  "('m, 't) externals \<Rightarrow> 'm ice_config_t \<Rightarrow> relay_server \<Rightarrow> nat \<Rightarrow> 't world \<Rightarrow> source_t" where
  "settled_source ext config relay src w =
     (if config_find_mount config (localmount relay) = None
      then x_source_update_settings ext config (w_sources w src) None
      else w_sources w src)\<lparr> src_on_demand := on_demand relay \<rparr>"

definition fallback_demand ::
  "('m, 't) externals \<Rightarrow> 't \<Rightarrow> source_store \<Rightarrow> nat \<Rightarrow> bool" where
  "fallback_demand ext tree store src =
     (case fallback_mount (store src) of
        None \<Rightarrow> False
      | Some fb \<Rightarrow>
          fallback_override (store src) \<noteq> 0 \<and>
          (case x_source_find_mount ext tree fb of
             None \<Rightarrow> False
           | Some fallback \<Rightarrow>
               src_running (store fallback) \<noteq> 0 \<and> listeners (store fallback) \<noteq> 0))"

definition override_demand ::
  "('m, 't) externals \<Rightarrow> 'm ice_config_t \<Rightarrow> relay_server \<Rightarrow> nat \<Rightarrow> 't world \<Rightarrow> bool" where
  "override_demand ext config relay src w =
     fallback_demand ext (w_tree w)
       ((w_sources w)(src := settled_source ext config relay src w)) src"

definition settings_events ::
  "'m ice_config_t \<Rightarrow> relay_server \<Rightarrow> nat \<Rightarrow> event list" where
  "settings_events config relay src =
     (if config_find_mount config (localmount relay) = None
      then [Source_update_settings src False] else [])
     @ [Stats_event (localmount relay) (Some ''listeners'') (Some ''0'')]"

definition override_events ::
  "('m, 't) externals \<Rightarrow> bool \<Rightarrow> source_t \<Rightarrow> event list" where
  "override_events ext demand s =
     (case fallback_mount s of
        None \<Rightarrow> []
      | Some fb \<Rightarrow>
          if fallback_override s \<noteq> 0
          then [Log DEBUG ''checking for fallback override'', Avl_tree_rlock, Source_find_mount fb]
               @ (if demand then [Log DEBUG ''fallback running with listeners''] else [])
               @ [Avl_tree_unlock]
          else [])"

definition is_thread_create :: "event \<Rightarrow> bool" where
  "is_thread_create e \<longleftrightarrow> (case e of Thread_create _ \<Rightarrow> True | _ \<Rightarrow> False)"

definition is_update_settings :: "event \<Rightarrow> bool" where
  "is_update_settings e \<longleftrightarrow> (case e of Source_update_settings _ _ \<Rightarrow> True | _ \<Rightarrow> False)"

text \<open>
  Samples: an on-demand relay \<open>/od\<close> whose source has no fallback yet, a running
  source \<open>/live\<close> with three listeners, a configuration whose entry for \<open>/od\<close> names
  \<open>/live\<close> as fallback with override, and a stand-in for
  \<^verbatim>\<open>source_update_settings\<close> that copies the fallback settings of the entry (none
  without an entry) into the source.
\<close>

record mount_proxy =
  mp_fallback_mount :: "string option"
  mp_fallback_override :: int

definition relay_od :: relay_server where
  "relay_od = \<lparr> server = ''up'', port = 8000, mount = ''/od'', localmount = ''/od'',
                username = None, password = None, mp3metadata = 1, on_demand = 1,
                enable = 1, source = Some 1, running = 0, cleanup = 0, thread = None \<rparr>"

definition source_live :: source_t where
  "source_live = \<lparr> fallback_mount = None, fallback_override = 0, on_demand_req = 0,
                   src_on_demand = 0, src_running = 1, listeners = 3, yp_public = 0 \<rparr>"

definition config_od :: "mount_proxy ice_config_t" where
  "config_od =
     \<lparr> hostname = ''me'', master_redirect_port = 0,
       mounts = [''/od'' \<mapsto> \<lparr> mp_fallback_mount = Some ''/live'',
                              mp_fallback_override = 1 \<rparr>],
       master_server = Some ''master'', master_server_port = 8000, master_ssl_port = 0,
       master_username = ''relay'', master_password = Some ''hackme'',
       master_relay_auth = 0, config_on_demand = 0 \<rparr>"

definition apply_mount :: "mount_proxy ice_config_t \<Rightarrow> source_t \<Rightarrow> mount_proxy option \<Rightarrow> source_t" where
  "apply_mount config s mountinfo =
     (case mountinfo of
        None \<Rightarrow> s\<lparr> fallback_mount := None, fallback_override := 0 \<rparr>
      | Some m \<Rightarrow> s\<lparr> fallback_mount := mp_fallback_mount m,
                      fallback_override := mp_fallback_override m \<rparr>)"

definition tree_od :: "string \<rightharpoonup> nat" where
  "tree_od = [''/od'' \<mapsto> 1, ''/live'' \<mapsto> 2]"

definition ext_od :: "(mount_proxy, string \<rightharpoonup> nat) externals" where
  "ext_od = \<lparr> x_source_reserve = (\<lambda>t m. (None, t)),
              x_source_find_mount = (\<lambda>t m. t m),
              x_source_update_settings = apply_mount,
              x_source_free_source = (\<lambda>t p. t),
              x_thread_create = (\<lambda>m. Some 9) \<rparr>"

definition world_od :: "(string \<rightharpoonup> nat) world" where
  "world_od = \<lparr> w_relays = [relay_od], w_master_relays = [],
                w_sources = (\<lambda>p. source_idle)(2 := source_live),
                w_tree = tree_od, w_update_settings = 0, w_rescan_relays = 0,
                w_events = [] \<rparr>"

definition world_od_fallback :: "(string \<rightharpoonup> nat) world" where
  "world_od_fallback =
     world_od\<lparr> w_sources := (\<lambda>p. source_idle)
                  (1 := source_idle\<lparr> fallback_mount := Some ''/live'', fallback_override := 1 \<rparr>,
                   2 := source_live) \<rparr>"

subsection \<open>Fetching the stream list of the master\<close>




























subsection \<open>Auxiliary facts about the reconciler\<close>

lemma relay_has_changed_eq:
  "relay_has_changed new old =
     (if materially_equivalent new old then (0, promote new old) else (1, old))"
  by (auto simp: relay_has_changed_def materially_equivalent_def promote_def)

lemma find_matches_D: "find (matches d) cur = Some e \<Longrightarrow> matches d e"
  by (auto simp: find_Some_iff)

lemma find_in_set: "find P xs = Some e \<Longrightarrow> e \<in> set xs"
  by (auto simp: find_Some_iff)

lemma scan_existing_Cons:
  "scan_existing d (x # xs) =
     (if matches d x then (Some (promote d x), xs)
      else (case scan_existing d xs of (found, rest') \<Rightarrow> (found, x # rest')))"
  by (simp add: relay_has_changed_eq matches_def)

lemma scan_existing_find:
  "scan_existing d cur =
     (case find (matches d) cur of
        None \<Rightarrow> (None, cur)
      | Some e \<Rightarrow> (Some (promote d e), remove1 e cur))"
proof (induction cur)
  case Nil
  show ?case by simp
next
  case (Cons x xs)
  show ?case
  proof (cases "matches d x")
    case True
    then show ?thesis
      by (simp add: scan_existing_Cons del: scan_existing.simps(2))
  next
    case False
    show ?thesis
    proof (cases "find (matches d) xs")
      case None
      with False Cons show ?thesis by (simp add: scan_existing_Cons del: scan_existing.simps(2))
    next
      case (Some e)
      then have "e \<noteq> x" using False find_matches_D by blast
      with Some False Cons show ?thesis by (simp add: scan_existing_Cons del: scan_existing.simps(2))
    qed
  qed
qed

lemma relay_copy_True: "relay_copy True d = (Some (introduce d), d\<lparr>source := None\<rparr>)"
  by (simp add: relay_copy_def introduce_def)

lemma relay_copy_False: "relay_copy False d = (None, d)"
  by (simp add: relay_copy_def)

lemma find_remove1_other: "\<not> P e \<Longrightarrow> find P (remove1 e xs) = find P xs"
  by (induction xs) auto

lemma distinct_map_neq:
  "distinct (map f xs) \<Longrightarrow> x \<in> set xs \<Longrightarrow> y \<in> set xs \<Longrightarrow> x \<noteq> y \<Longrightarrow> f x \<noteq> f y"
  by (meson distinct_map inj_onD)

lemma update_relay_set_loop_char:
  assumes "distinct (map localmount current)" "distinct (map localmount updated)"
    "length updated \<le> avail"
  shows "update_relay_set_loop avail current updated acc =
    Inr (rev (map (keep_or_new current) updated) @ acc,
         filter (\<lambda>e. \<not> (\<exists>d\<in>set updated. matches d e)) current,
         map (\<lambda>d. if (\<exists>e\<in>set current. matches d e) then d else d\<lparr>source := None\<rparr>) updated)"
  using assms
proof (induction updated arbitrary: avail current acc)
  case Nil
  then show ?case by simp
next
  case (Cons d rest)
  have dr: "distinct (map localmount rest)" and
       dnot: "\<And>d'. d' \<in> set rest \<Longrightarrow> localmount d' \<noteq> localmount d"
    using Cons.prems(2) by (auto simp: image_iff)
  show ?case
  proof (cases "find (matches d) current")
    case None
    then have nomatch: "\<And>e. e \<in> set current \<Longrightarrow> \<not> matches d e"
      by (simp add: find_None_iff)
    obtain k where k: "avail = Suc k" and lk: "length rest \<le> k"
      using Cons.prems(3) by (cases avail) auto
    have IH: "update_relay_set_loop k current rest (introduce d # acc) =
      Inr (rev (map (keep_or_new current) rest) @ introduce d # acc,
         filter (\<lambda>e. \<not> (\<exists>d\<in>set rest. matches d e)) current,
         map (\<lambda>d. if (\<exists>e\<in>set current. matches d e) then d else d\<lparr>source := None\<rparr>) rest)"
      using Cons.IH [OF Cons.prems(1) dr lk] .
    have f: "filter (\<lambda>e. \<not> (\<exists>d\<in>set rest. matches d e)) current =
             filter (\<lambda>e. \<not> (\<exists>d\<in>set (d # rest). matches d e)) current"
      by (rule filter_cong) (auto simp: nomatch)
    have kn: "keep_or_new current d = introduce d"
      by (simp add: keep_or_new_def None)
    have ex: "\<not> (\<exists>e\<in>set current. matches d e)" using nomatch by blast
    have step: "update_relay_set_loop avail current (d # rest) acc =
      Inr (rev (map (keep_or_new current) rest) @ introduce d # acc,
         filter (\<lambda>e. \<not> (\<exists>d\<in>set rest. matches d e)) current,
         d\<lparr>source := None\<rparr> #
         map (\<lambda>d. if (\<exists>e\<in>set current. matches d e) then d else d\<lparr>source := None\<rparr>) rest)"
      unfolding update_relay_set_loop.simps scan_existing_find None k
      by (simp add: relay_copy_True IH)
    show ?thesis unfolding step f by (simp add: kn ex)
  next
    case (Some e)
    have me: "matches d e" using Some by (rule find_matches_D)
    have ein: "e \<in> set current" using Some by (rule find_in_set)
    have lm: "localmount e = localmount d" using me by (simp add: matches_def)
    have dc: "distinct current" using Cons.prems(1) by (simp add: distinct_map)
    have dc': "distinct (map localmount (remove1 e current))"
      using Cons.prems(1) dc by (simp add: distinct_map inj_on_def)
    have lr: "length rest \<le> avail" using Cons.prems(3) by simp
    have other: "\<not> matches d x" if "x \<in> set current" "x \<noteq> e" for x
    proof -
      have "localmount x \<noteq> localmount e"
        using distinct_map_neq [OF Cons.prems(1) that(1) ein that(2)] .
      then show ?thesis using lm by (simp add: matches_def)
    qed
    have notrest: "\<And>d'. d' \<in> set rest \<Longrightarrow> \<not> matches d' e"
      using dnot lm by (auto simp: matches_def)
    have IH: "update_relay_set_loop avail (remove1 e current) rest (promote d e # acc) =
      Inr (rev (map (keep_or_new (remove1 e current)) rest) @ promote d e # acc,
         filter (\<lambda>x. \<not> (\<exists>d\<in>set rest. matches d x)) (remove1 e current),
         map (\<lambda>d. if (\<exists>x\<in>set (remove1 e current). matches d x) then d else d\<lparr>source := None\<rparr>) rest)"
      using Cons.IH [OF dc' dr lr] .
    have a: "map (keep_or_new (remove1 e current)) rest = map (keep_or_new current) rest"
      by (rule map_cong) (simp_all add: keep_or_new_def find_remove1_other notrest)
    have b: "filter (\<lambda>x. \<not> (\<exists>d\<in>set rest. matches d x)) (remove1 e current) =
             filter (\<lambda>x. \<not> (\<exists>d\<in>set (d # rest). matches d x)) current"
    proof -
      have "filter (\<lambda>x. \<not> (\<exists>d\<in>set rest. matches d x)) (remove1 e current) =
            filter (\<lambda>x. \<not> (\<exists>d\<in>set rest. matches d x)) (filter (\<lambda>x. e \<noteq> x) current)"
        using dc by (simp add: distinct_remove1_removeAll removeAll_filter_not_eq)
      also have "\<dots> = filter (\<lambda>x. x \<noteq> e \<and> \<not> (\<exists>d\<in>set rest. matches d x)) current"
        by (auto intro: filter_cong)
      also have "\<dots> = filter (\<lambda>x. \<not> (\<exists>d\<in>set (d # rest). matches d x)) current"
        by (rule filter_cong) (use other me in auto)
      finally show ?thesis .
    qed
    have c: "map (\<lambda>d. if (\<exists>x\<in>set (remove1 e current). matches d x) then d else d\<lparr>source := None\<rparr>) rest
           = map (\<lambda>d. if (\<exists>x\<in>set current. matches d x) then d else d\<lparr>source := None\<rparr>) rest"
      by (rule map_cong) (use dc notrest in \<open>auto\<close>)
    have kn: "keep_or_new current d = promote d e"
      by (simp add: keep_or_new_def Some)
    have ex: "\<exists>e\<in>set current. matches d e" using me ein by blast
    have step: "update_relay_set_loop avail current (d # rest) acc =
      Inr (rev (map (keep_or_new (remove1 e current)) rest) @ promote d e # acc,
         filter (\<lambda>x. \<not> (\<exists>d\<in>set rest. matches d x)) (remove1 e current),
         d # map (\<lambda>d. if (\<exists>x\<in>set (remove1 e current). matches d x) then d else d\<lparr>source := None\<rparr>) rest)"
      unfolding update_relay_set_loop.simps scan_existing_find Some
      by (simp add: IH)
    show ?thesis unfolding step a b c using ex by (simp add: kn)
  qed
qed


lemma matches_key: "matches d e \<longleftrightarrow> relay_key d = relay_key e"
  by (auto simp: matches_def materially_equivalent_def relay_key_def)

lemma relay_key_promote: "relay_key (promote d e) = relay_key e"
  by (simp add: relay_key_def promote_def)

lemma relay_key_introduce: "relay_key (introduce d) = relay_key d"
  by (simp add: relay_key_def introduce_def)

lemma relay_key_source: "relay_key (d\<lparr>source := s\<rparr>) = relay_key d"
  by (simp add: relay_key_def)

lemma mset_map_remove1:
  "e \<in> set xs \<Longrightarrow> add_mset (f e) (mset (map f (remove1 e xs))) = mset (map f xs)"
  by (induction xs) auto

lemma update_relay_set_loop_promotes:
  assumes "mset (map relay_key upd) = mset (map relay_key cur)"
  shows "\<exists>new. update_relay_set_loop avail cur upd acc = Inr (new @ acc, [], upd) \<and>
           list_all2 (\<lambda>d r. \<exists>e \<in> set cur. matches d e \<and> r = promote d e) upd (rev new) \<and>
           mset (map without_on_demand new) = mset (map without_on_demand cur)"
  using assms
proof (induction upd arbitrary: cur acc)
  case Nil
  then show ?case by simp
next
  case (Cons d rest)
  have "relay_key d \<in># mset (map relay_key cur)"
    using Cons.prems by (metis list.set_intros(1) list.simps(9) set_mset_mset)
  then obtain x where "x \<in> set cur" "matches d x"
    by (auto simp: matches_key)
  then have "find (matches d) cur \<noteq> None"
    by (auto simp: find_None_iff)
  then obtain e where e: "find (matches d) cur = Some e" by blast
  have me: "matches d e" using e by (rule find_matches_D)
  have ein: "e \<in> set cur" using e by (rule find_in_set)
  have k: "relay_key e = relay_key d" using me by (simp add: matches_key)
  have sc: "scan_existing d cur = (Some (promote d e), remove1 e cur)"
    by (simp add: scan_existing_find e)
  have "mset (map relay_key cur) = add_mset (relay_key d) (mset (map relay_key (remove1 e cur)))"
    using mset_map_remove1 [OF ein, of relay_key] k by simp
  then have "mset (map relay_key rest) = mset (map relay_key (remove1 e cur))"
    using Cons.prems by simp
  from Cons.IH [OF this, of "promote d e # acc"] obtain new' where
    ih: "update_relay_set_loop avail (remove1 e cur) rest (promote d e # acc) =
          Inr (new' @ promote d e # acc, [], rest) \<and>
        list_all2 (\<lambda>d r. \<exists>e \<in> set (remove1 e cur). matches d e \<and> r = promote d e)
           rest (rev new') \<and>
        mset (map without_on_demand new') = mset (map without_on_demand (remove1 e cur))" ..
  note r = ih [THEN conjunct1]
  note la = ih [THEN conjunct2, THEN conjunct1]
  note ms = ih [THEN conjunct2, THEN conjunct2]
  have la': "list_all2 (\<lambda>d r. \<exists>e \<in> set cur. matches d e \<and> r = promote d e) rest (rev new')"
  proof (rule list_all2_mono [OF la])
    fix x y
    assume "\<exists>e' \<in> set (remove1 e cur). matches x e' \<and> y = promote x e'"
    then obtain e' where "e' \<in> set (remove1 e cur)" "matches x e'" "y = promote x e'" by blast
    moreover from this have "e' \<in> set cur" using set_remove1_subset by fast
    ultimately show "\<exists>e \<in> set cur. matches x e \<and> y = promote x e" by blast
  qed
  have w: "without_on_demand (promote d e) = without_on_demand e"
    by (simp add: without_on_demand_def promote_def)
  have ms': "mset (map without_on_demand (new' @ [promote d e])) = mset (map without_on_demand cur)"
    using mset_map_remove1 [OF ein, of without_on_demand] ms w by simp
  have la'': "list_all2 (\<lambda>d r. \<exists>e \<in> set cur. matches d e \<and> r = promote d e)
           (d # rest) (rev (new' @ [promote d e]))"
  proof -
    have "\<exists>e' \<in> set cur. matches d e' \<and> promote d e = promote d e'" using me ein by blast
    then show ?thesis using la' by simp
  qed
  have l: "update_relay_set_loop avail cur (d # rest) acc =
          Inr ((new' @ [promote d e]) @ acc, [], d # rest)"
    by (simp add: sc r)
  show ?case
    apply (rule exI [where x = "new' @ [promote d e]"])
    apply (rule conjI [OF l])
    apply (rule conjI [OF la''])
    apply (rule ms')
    done
qed

lemma promoted_keys:
  assumes "list_all2 (\<lambda>d r. \<exists>e \<in> set cur. matches d e \<and> r = promote d e) upd xs"
  shows "map relay_key xs = map relay_key upd \<and> map on_demand xs = map on_demand upd"
  using assms
proof (induction upd xs rule: list_all2_induct)
  case Nil
  show ?case by simp
next
  case (Cons d upd r xs)
  from Cons(1) obtain e where e: "matches d e" "r = promote d e" by blast
  have "relay_key r = relay_key d"
    using e by (simp add: matches_key relay_key_promote)
  moreover have "on_demand r = on_demand d"
    using e by (simp add: promote_def)
  ultimately show ?case using Cons.IH by simp
qed

lemma update_relay_set_loop_keys:
  "update_relay_set_loop avail cur upd acc = Inr (nl, cl, upd') \<Longrightarrow>
     map relay_key nl = rev (map relay_key upd) @ map relay_key acc \<and>
     map relay_key upd' = map relay_key upd"
proof (induction upd arbitrary: avail cur acc nl cl upd')
  case Nil
  then show ?case by auto
next
  case (Cons d rest)
  show ?case
  proof (cases "find (matches d) cur")
    case None
    show ?thesis
    proof (cases avail)
      case 0
      with Cons.prems None show ?thesis
        by (simp add: scan_existing_find relay_copy_False)
    next
      case (Suc k)
      with Cons.prems None obtain u where
        r: "update_relay_set_loop k cur rest (introduce d # acc) = Inr (nl, cl, u)"
        and u: "upd' = d\<lparr>source := None\<rparr> # u"
        by (auto simp: scan_existing_find relay_copy_True split: sum.splits)
      from Cons.IH [OF r] show ?thesis
        by (simp add: u relay_key_introduce relay_key_source)
    qed
  next
    case (Some e)
    have k: "relay_key e = relay_key d"
      using find_matches_D [OF Some] by (simp add: matches_key)
    from Cons.prems Some obtain u where
      r: "update_relay_set_loop avail (remove1 e cur) rest (promote d e # acc) = Inr (nl, cl, u)"
      and u: "upd' = d # u"
      by (auto simp: scan_existing_find split: sum.splits)
    from Cons.IH [OF r] show ?thesis
      by (simp add: u relay_key_promote k)
  qed
qed

lemma update_relay_set_loop_total:
  "length upd \<le> avail \<Longrightarrow> \<exists>r. update_relay_set_loop avail cur upd acc = Inr r"
proof (induction upd arbitrary: avail cur acc)
  case Nil
  then show ?case by simp
next
  case (Cons d rest)
  then obtain k where k: "avail = Suc k" and lk: "length rest \<le> k"
    by (cases avail) auto
  show ?case
  proof (cases "find (matches d) cur")
    case None
    from Cons.IH [OF lk, of cur "introduce d # acc"] show ?thesis
      by (auto simp: scan_existing_find None relay_copy_True k)
  next
    case (Some e)
    have "length rest \<le> avail" using k lk by simp
    from Cons.IH [OF this, of "remove1 e cur" "promote d e # acc"] show ?thesis
      by (auto simp: scan_existing_find Some)
  qed
qed

subsection \<open>The reconciler partitions the two lists\<close>

text \<open>
  Claim C1.  Let \<open>current\<close> and \<open>updated\<close> each have pairwise different local mounts,
  and let \<^verbatim>\<open>calloc\<close> succeed for every copy (\<open>length updated \<le> avail\<close>).  Then
  \<^verbatim>\<open>update_relay_set\<close> returns, in the reverse order of \<open>updated\<close>, for every record
  \<open>d\<close> of \<open>updated\<close>: the record \<open>e\<close> of \<open>current\<close> with the same local mount that is
  materially equivalent, with \<open>d\<close>'s \<open>on_demand\<close> written into it (promote), if there
  is one, and otherwise the copy made by \<^verbatim>\<open>relay_copy\<close>, which carries \<open>d\<close>'s source
  pointer while \<open>d\<close> is left with a null source (introduce).  What is left in
  \<open>current\<close>, and so what \<^verbatim>\<open>update_relays\<close> returns as the cleanup list, is exactly
  the records of \<open>current\<close> that no record of \<open>updated\<close> matches.
\<close>

theorem update_relay_set_partition:
  assumes "distinct (map localmount current)"
    and "distinct (map localmount updated)"
    and "length updated \<le> avail"
  shows "update_relay_set avail current updated =
           Inr (rev (map (keep_or_new current) updated),
                filter (\<lambda>e. \<not> (\<exists>d\<in>set updated. matches d e)) current,
                map (\<lambda>d. if (\<exists>e\<in>set current. matches d e) then d
                          else d\<lparr>source := None\<rparr>) updated)
       \<and> update_relays avail current updated =
           Inr (filter (\<lambda>e. \<not> (\<exists>d\<in>set updated. matches d e)) current,
                rev (map (keep_or_new current) updated),
                map (\<lambda>d. if (\<exists>e\<in>set current. matches d e) then d
                          else d\<lparr>source := None\<rparr>) updated)
       \<and> (\<forall>d\<in>set updated. relay_copy True d = (Some (introduce d), d\<lparr>source := None\<rparr>)
              \<and> source (introduce d) = source d)"
proof -
  have "update_relay_set avail current updated =
           Inr (rev (map (keep_or_new current) updated),
                filter (\<lambda>e. \<not> (\<exists>d\<in>set updated. matches d e)) current,
                map (\<lambda>d. if (\<exists>e\<in>set current. matches d e) then d
                          else d\<lparr>source := None\<rparr>) updated)"
    unfolding update_relay_set_def
    using update_relay_set_loop_char [OF assms, of "[]"] by simp
  moreover have "source (introduce d) = source d" for d
    by (simp add: introduce_def)
  ultimately show ?thesis
    by (simp add: update_relays_def relay_copy_True)
qed

theorem update_relay_set_partition_witness:
  "distinct (map localmount [relay_a, relay_b]) \<and>
   distinct (map localmount [conf_a, conf_c]) \<and>
   length [conf_a, conf_c] \<le> (2::nat) \<and>
   update_relay_set 2 [relay_a, relay_b] [conf_a, conf_c] =
     Inr ([introduce conf_c, relay_a\<lparr>on_demand := 1\<rparr>],
          [relay_b],
          [conf_a, conf_c\<lparr>source := None\<rparr>]) \<and>
   source (introduce conf_c) = Some 3"
proof -
  have d1: "distinct (map localmount [relay_a, relay_b])"
    by (simp add: relay_a_def relay_b_def)
  have d2: "distinct (map localmount [conf_a, conf_c])"
    by (simp add: conf_a_def conf_c_def)
  have l: "length [conf_a, conf_c] \<le> (2::nat)" by simp
  have m: "matches conf_a relay_a" "\<not> matches conf_a relay_b"
          "\<not> matches conf_c relay_a" "\<not> matches conf_c relay_b"
    by (simp_all add: matches_def materially_equivalent_def
          relay_a_def relay_b_def conf_a_def conf_c_def)
  have od: "on_demand conf_a = 1" by (simp add: conf_a_def)
  have sc: "source conf_c = Some 3" by (simp add: conf_c_def)
  show ?thesis
    using update_relay_set_partition [OF d1 d2 l] d1 d2
    by (simp add: keep_or_new_def promote_def m od sc)
qed

subsection \<open>Change detection\<close>

text \<open>
  Claim C2.  \<^verbatim>\<open>relay_has_changed (new, old)\<close> returns 0 iff server, mount, port
  and mp3 metadata of the two records are equal, and 1 otherwise, whatever the two
  \<open>on_demand\<close> values are.  When it returns 0, \<open>old\<close> gets \<open>new\<close>'s \<open>on_demand\<close>
  and is otherwise untouched; when it returns 1, \<open>old\<close> is untouched.  In a
  reconciliation (lists with pairwise different local mounts, enough memory) a record
  of \<open>current\<close> matched by a record of \<open>updated\<close> with the same local mount is not in
  the cleanup list: it is in the new list with the new \<open>on_demand\<close>.
\<close>

theorem relay_has_changed_spec:
  "(fst (relay_has_changed new old) = 0 \<longleftrightarrow>
      server new = server old \<and> mount new = mount old \<and> port new = port old \<and>
      mp3metadata new = mp3metadata old)
   \<and> (fst (relay_has_changed new old) \<noteq> 0 \<longleftrightarrow> relay_has_changed new old = (1, old))
   \<and> (fst (relay_has_changed new old) = 0 \<longleftrightarrow>
        relay_has_changed new old = (0, old\<lparr>on_demand := on_demand new\<rparr>))
   \<and> (distinct (map localmount current) \<and> distinct (map localmount updated) \<and>
      length updated \<le> avail \<and> old \<in> set current \<and> new \<in> set updated \<and>
      localmount new = localmount old \<and> fst (relay_has_changed new old) = 0
      \<longrightarrow> (\<exists>cleanup_relays active upd.
            update_relays avail current updated = Inr (cleanup_relays, active, upd) \<and>
            old \<notin> set cleanup_relays \<and>
            old\<lparr>on_demand := on_demand new\<rparr> \<in> set active))"
proof -
  have a: "fst (relay_has_changed new old) = 0 \<longleftrightarrow> materially_equivalent new old"
    by (simp add: relay_has_changed_eq)
  have b: "fst (relay_has_changed new old) \<noteq> 0 \<longleftrightarrow> relay_has_changed new old = (1, old)"
    by (simp add: relay_has_changed_eq)
  have c: "fst (relay_has_changed new old) = 0 \<longleftrightarrow>
        relay_has_changed new old = (0, old\<lparr>on_demand := on_demand new\<rparr>)"
    by (simp add: relay_has_changed_eq promote_def)
  have d: "\<exists>cleanup_relays active upd.
            update_relays avail current updated = Inr (cleanup_relays, active, upd) \<and>
            old \<notin> set cleanup_relays \<and>
            old\<lparr>on_demand := on_demand new\<rparr> \<in> set active"
    if dc: "distinct (map localmount current)" and du: "distinct (map localmount updated)"
      and l: "length updated \<le> avail" and oc: "old \<in> set current"
      and nu: "new \<in> set updated" and lm: "localmount new = localmount old"
      and z: "fst (relay_has_changed new old) = 0"
  proof -
    have m: "matches new old" using a z lm by (simp add: matches_def)
    have "find (matches new) current \<noteq> None"
      using m oc by (auto simp: find_None_iff)
    then obtain e where e: "find (matches new) current = Some e" by blast
    have "e = old"
    proof (rule ccontr)
      assume ne: "e \<noteq> old"
      have "localmount e \<noteq> localmount old"
        using distinct_map_neq [OF dc find_in_set [OF e] oc ne] .
      moreover have "localmount e = localmount new"
        using find_matches_D [OF e] by (simp add: matches_def)
      ultimately show False using lm by simp
    qed
    then have k: "keep_or_new current new = old\<lparr>on_demand := on_demand new\<rparr>"
      by (simp add: keep_or_new_def e promote_def)
    have "update_relays avail current updated =
           Inr (filter (\<lambda>e. \<not> (\<exists>d\<in>set updated. matches d e)) current,
                rev (map (keep_or_new current) updated),
                map (\<lambda>d. if (\<exists>e\<in>set current. matches d e) then d
                          else d\<lparr>source := None\<rparr>) updated)"
      unfolding update_relays_def update_relay_set_def
      using update_relay_set_loop_char [OF dc du l, of "[]"] by simp
    moreover have "old \<notin> set (filter (\<lambda>e. \<not> (\<exists>d\<in>set updated. matches d e)) current)"
      using m nu by auto
    moreover have "old\<lparr>on_demand := on_demand new\<rparr> \<in> set (rev (map (keep_or_new current) updated))"
      using nu k by (metis image_eqI set_map set_rev)
    ultimately show ?thesis by blast
  qed
  show ?thesis
    using a b c d unfolding materially_equivalent_def by blast
qed

theorem relay_has_changed_spec_witness:
  "fst (relay_has_changed conf_a relay_a) = 0 \<and>
   relay_has_changed conf_a relay_a = (0, relay_a\<lparr>on_demand := 1\<rparr>) \<and>
   relay_has_changed conf_c relay_a = (1, relay_a) \<and>
   (\<exists>cleanup_relays active upd.
      update_relays 2 [relay_a, relay_b] [conf_a, conf_c] = Inr (cleanup_relays, active, upd) \<and>
      relay_a \<notin> set cleanup_relays \<and> relay_a\<lparr>on_demand := on_demand conf_a\<rparr> \<in> set active)"
proof -
  have z: "fst (relay_has_changed conf_a relay_a) = 0"
    by (simp add: relay_has_changed_def relay_a_def conf_a_def)
  have n: "fst (relay_has_changed conf_c relay_a) \<noteq> 0"
    by (simp add: relay_has_changed_def relay_a_def conf_c_def)
  have h: "distinct (map localmount [relay_a, relay_b]) \<and>
      distinct (map localmount [conf_a, conf_c]) \<and>
      length [conf_a, conf_c] \<le> (2::nat) \<and> relay_a \<in> set [relay_a, relay_b] \<and>
      conf_a \<in> set [conf_a, conf_c] \<and> localmount conf_a = localmount relay_a"
    by (simp add: relay_a_def relay_b_def conf_a_def conf_c_def)
  have od: "on_demand conf_a = 1" by (simp add: conf_a_def)
  have s1: "relay_has_changed conf_a relay_a = (0, relay_a\<lparr>on_demand := 1\<rparr>)"
    using relay_has_changed_spec [of conf_a relay_a "[]" "[]" 0] z od by simp
  have s2: "relay_has_changed conf_c relay_a = (1, relay_a)"
    using relay_has_changed_spec [of conf_c relay_a "[]" "[]" 0] n by blast
  have "distinct (map localmount [relay_a, relay_b]) \<and>
      distinct (map localmount [conf_a, conf_c]) \<and>
      length [conf_a, conf_c] \<le> (2::nat) \<and> relay_a \<in> set [relay_a, relay_b] \<and>
      conf_a \<in> set [conf_a, conf_c] \<and> localmount conf_a = localmount relay_a \<and>
      fst (relay_has_changed conf_a relay_a) = 0
      \<longrightarrow> (\<exists>cleanup_relays active upd.
            update_relays 2 [relay_a, relay_b] [conf_a, conf_c] =
              Inr (cleanup_relays, active, upd) \<and>
            relay_a \<notin> set cleanup_relays \<and>
            relay_a\<lparr>on_demand := on_demand conf_a\<rparr> \<in> set active)"
    using relay_has_changed_spec [of conf_a relay_a "[relay_a, relay_b]" "[conf_a, conf_c]" 2]
    by blast
  then have s3: "\<exists>cleanup_relays active upd.
            update_relays 2 [relay_a, relay_b] [conf_a, conf_c] =
              Inr (cleanup_relays, active, upd) \<and>
            relay_a \<notin> set cleanup_relays \<and>
            relay_a\<lparr>on_demand := on_demand conf_a\<rparr> \<in> set active"
    using h z by blast
  show ?thesis using z s1 s2 s3 by blast
qed

subsection \<open>Reconciling twice\<close>

text \<open>
  Claim C3.  Whatever \<open>current\<close> is, when the first \<^verbatim>\<open>update_relays\<close> has the
  memory for its copies it returns, and the list it leaves in \<open>current\<close> has the
  records of \<open>updated\<close> (by local mount, server, mount, port and mp3 metadata), last
  first.  A second \<^verbatim>\<open>update_relays\<close> on that list, with a list \<open>updated2\<close> that
  agrees with \<open>updated\<close> on local mount, server, mount, port and mp3 metadata (the list
  \<open>updated\<close> itself as the first call left it is one such), returns an empty cleanup
  list and leaves \<open>updated2\<close> as it is: every record of its result is a record of the
  list it was given, promoted for the record of \<open>updated2\<close> at its place (that is,
  with the on-demand flag of that record), and apart from the on-demand flags the result
  holds the very records it was given, each as often as before.  The local mounts need
  not even be different.
\<close>

theorem update_relays_idempotent:
  assumes "length updated \<le> avail"
  shows "\<exists>cleanup_relays current' updated'.
           update_relays avail current updated = Inr (cleanup_relays, current', updated') \<and>
           map relay_key updated' = map relay_key updated \<and>
           map relay_key current' = rev (map relay_key updated) \<and>
           (\<forall>updated2 avail2. map relay_key updated2 = map relay_key updated \<longrightarrow>
              (\<exists>current2.
                 update_relays avail2 current' updated2 = Inr ([], current2, updated2) \<and>
                 list_all2 (\<lambda>d r. \<exists>e \<in> set current'. matches d e \<and> r = promote d e)
                    updated2 (rev current2) \<and>
                 mset (map without_on_demand current2) = mset (map without_on_demand current') \<and>
                 map relay_key current2 = rev (map relay_key updated2) \<and>
                 map on_demand current2 = rev (map on_demand updated2)))"
proof -
  from update_relay_set_loop_total [OF assms, of current "[]"] obtain nl cl upd' where
    r: "update_relay_set_loop avail current updated [] = Inr (nl, cl, upd')"
    by (metis prod_cases3)
  from update_relay_set_loop_keys [OF r] have
    knl: "map relay_key nl = rev (map relay_key updated)" and
    kupd: "map relay_key upd' = map relay_key updated" by simp_all
  have second: "\<exists>current2.
                 update_relays avail2 nl updated2 = Inr ([], current2, updated2) \<and>
                 list_all2 (\<lambda>d r. \<exists>e \<in> set nl. matches d e \<and> r = promote d e)
                    updated2 (rev current2) \<and>
                 mset (map without_on_demand current2) = mset (map without_on_demand nl) \<and>
                 map relay_key current2 = rev (map relay_key updated2) \<and>
                 map on_demand current2 = rev (map on_demand updated2)"
    if "map relay_key updated2 = map relay_key updated" for updated2 avail2
  proof -
    have "mset (map relay_key updated2) = mset (map relay_key nl)"
      using that knl by simp
    from update_relay_set_loop_promotes [OF this, of avail2 "[]"] obtain new where
      ih: "update_relay_set_loop avail2 nl updated2 [] = Inr (new @ [], [], updated2) \<and>
        list_all2 (\<lambda>d r. \<exists>e \<in> set nl. matches d e \<and> r = promote d e) updated2 (rev new) \<and>
        mset (map without_on_demand new) = mset (map without_on_demand nl)" ..
    have l: "update_relay_set_loop avail2 nl updated2 [] = Inr (new, [], updated2)"
      using ih [THEN conjunct1] by simp
    note la = ih [THEN conjunct2, THEN conjunct1]
    note ms = ih [THEN conjunct2, THEN conjunct2]
    have u: "update_relays avail2 nl updated2 = Inr ([], new, updated2)"
      by (simp add: update_relays_def update_relay_set_def l)
    from promoted_keys [OF la] have
      "rev (map relay_key new) = map relay_key updated2"
      "rev (map on_demand new) = map on_demand updated2"
      by (simp_all add: rev_map)
    then have
      k1: "map relay_key new = rev (map relay_key updated2)" and
      k2: "map on_demand new = rev (map on_demand updated2)"
      by (simp_all add: rev_swap)
    show ?thesis
      apply (rule exI [where x = new])
      apply (rule conjI [OF u])
      apply (rule conjI [OF la])
      apply (rule conjI [OF ms])
      apply (rule conjI [OF k1])
      apply (rule k2)
      done
  qed
  have first: "update_relays avail current updated = Inr (cl, nl, upd')"
    by (simp add: update_relays_def update_relay_set_def r)
  show ?thesis
    apply (rule exI [where x = cl])
    apply (rule exI [where x = nl])
    apply (rule exI [where x = upd'])
    apply (rule conjI [OF first])
    apply (rule conjI [OF kupd])
    apply (rule conjI [OF knl])
    apply (intro allI impI)
    apply (erule second)
    done
qed


theorem update_relays_idempotent_witness:
  "length [conf_a, conf_c] \<le> (2::nat) \<and>
   update_relays 2 [relay_a, relay_b] [conf_a, conf_c] =
     Inr ([relay_b], [introduce conf_c, promote conf_a relay_a],
          [conf_a, conf_c\<lparr>source := None\<rparr>]) \<and>
   map relay_key [conf_a, conf_c\<lparr>source := None\<rparr>] = map relay_key [conf_a, conf_c] \<and>
   (\<exists>current2.
      update_relays 0 [introduce conf_c, promote conf_a relay_a]
          [conf_a, conf_c\<lparr>source := None\<rparr>] =
        Inr ([], current2, [conf_a, conf_c\<lparr>source := None\<rparr>]) \<and>
      mset (map without_on_demand current2) =
        mset (map without_on_demand [introduce conf_c, promote conf_a relay_a]) \<and>
      map relay_key current2 = rev (map relay_key [conf_a, conf_c\<lparr>source := None\<rparr>]) \<and>
      map on_demand current2 = rev (map on_demand [conf_a, conf_c\<lparr>source := None\<rparr>])) \<and>
   update_relays 0 [introduce conf_c, promote conf_a relay_a]
       [conf_a, conf_c\<lparr>source := None\<rparr>] =
     Inr ([], [introduce conf_c, promote conf_a relay_a], [conf_a, conf_c\<lparr>source := None\<rparr>])"
proof -
  have l: "length [conf_a, conf_c] \<le> (2::nat)" by simp
  have first: "update_relays 2 [relay_a, relay_b] [conf_a, conf_c] =
     Inr ([relay_b], [introduce conf_c, promote conf_a relay_a],
          [conf_a, conf_c\<lparr>source := None\<rparr>])"
    by (simp add: update_relays_def update_relay_set_def relay_has_changed_def relay_copy_def
          introduce_def promote_def relay_a_def relay_b_def conf_a_def conf_c_def)
  have k: "map relay_key [conf_a, conf_c\<lparr>source := None\<rparr>] = map relay_key [conf_a, conf_c]"
    by (simp add: relay_key_def)
  from update_relays_idempotent [OF l, of "[relay_a, relay_b]"] obtain cl cur' upd' where
    t: "update_relays 2 [relay_a, relay_b] [conf_a, conf_c] = Inr (cl, cur', upd') \<and>
        map relay_key upd' = map relay_key [conf_a, conf_c] \<and>
        map relay_key cur' = rev (map relay_key [conf_a, conf_c]) \<and>
        (\<forall>updated2 avail2. map relay_key updated2 = map relay_key [conf_a, conf_c] \<longrightarrow>
           (\<exists>current2.
              update_relays avail2 cur' updated2 = Inr ([], current2, updated2) \<and>
              list_all2 (\<lambda>d r. \<exists>e \<in> set cur'. matches d e \<and> r = promote d e)
                 updated2 (rev current2) \<and>
              mset (map without_on_demand current2) = mset (map without_on_demand cur') \<and>
              map relay_key current2 = rev (map relay_key updated2) \<and>
              map on_demand current2 = rev (map on_demand updated2)))"
    by (elim exE)
  have c: "cur' = [introduce conf_c, promote conf_a relay_a]"
    using t [THEN conjunct1] first by simp
  note sec = t [THEN conjunct2, THEN conjunct2, THEN conjunct2, rule_format, OF k, of 0]
  then obtain current2 where
    s: "update_relays 0 cur' [conf_a, conf_c\<lparr>source := None\<rparr>] =
          Inr ([], current2, [conf_a, conf_c\<lparr>source := None\<rparr>]) \<and>
        list_all2 (\<lambda>d r. \<exists>e \<in> set cur'. matches d e \<and> r = promote d e)
           [conf_a, conf_c\<lparr>source := None\<rparr>] (rev current2) \<and>
        mset (map without_on_demand current2) = mset (map without_on_demand cur') \<and>
        map relay_key current2 = rev (map relay_key [conf_a, conf_c\<lparr>source := None\<rparr>]) \<and>
        map on_demand current2 = rev (map on_demand [conf_a, conf_c\<lparr>source := None\<rparr>])" ..
  have second: "\<exists>current2.
      update_relays 0 [introduce conf_c, promote conf_a relay_a]
          [conf_a, conf_c\<lparr>source := None\<rparr>] =
        Inr ([], current2, [conf_a, conf_c\<lparr>source := None\<rparr>]) \<and>
      mset (map without_on_demand current2) =
        mset (map without_on_demand [introduce conf_c, promote conf_a relay_a]) \<and>
      map relay_key current2 = rev (map relay_key [conf_a, conf_c\<lparr>source := None\<rparr>]) \<and>
      map on_demand current2 = rev (map on_demand [conf_a, conf_c\<lparr>source := None\<rparr>])"
    apply (rule exI [where x = current2])
    apply (rule conjI [OF s [THEN conjunct1, unfolded c]])
    apply (rule conjI [OF s [THEN conjunct2, THEN conjunct2, THEN conjunct1, unfolded c]])
    apply (rule s [THEN conjunct2, THEN conjunct2, THEN conjunct2])
    done
  have again: "update_relays 0 [introduce conf_c, promote conf_a relay_a]
       [conf_a, conf_c\<lparr>source := None\<rparr>] =
     Inr ([], [introduce conf_c, promote conf_a relay_a], [conf_a, conf_c\<lparr>source := None\<rparr>])"
    by (simp add: update_relays_def update_relay_set_def relay_has_changed_def relay_copy_def
          introduce_def promote_def relay_a_def relay_b_def conf_a_def conf_c_def)
  show ?thesis
    apply (rule conjI [OF l])
    apply (rule conjI [OF first])
    apply (rule conjI [OF k])
    apply (rule conjI [OF second])
    apply (rule again)
    done
qed

subsection \<open>Auxiliary facts about the slave host table\<close>

lemma walk_index_Some:
  "walk_index xs srv p = Some i \<Longrightarrow>
     i < length xs \<and> sh_server (xs ! i) = srv \<and> sh_port (xs ! i) = p"
proof (induction xs arbitrary: i)
  case Nil
  then show ?case by simp
next
  case (Cons x xs)
  then show ?case by (auto split: if_splits)
qed

lemma slave_host_remove_loop_char:
  "slave_host_remove_loop srv p xs n =
     (case walk_index xs srv p of
        None \<Rightarrow> (xs, n)
      | Some i \<Rightarrow>
          if sh_count (xs ! i) = 1 then (take i xs @ drop (Suc i) xs, n - 1)
          else (xs[i := (xs ! i)\<lparr> sh_count := sh_count (xs ! i) - 1 \<rparr>], n))"
proof (induction xs)
  case Nil
  show ?case by simp
next
  case (Cons x xs)
  show ?case
  proof (cases "sh_server x = srv \<and> sh_port x = p")
    case True
    then show ?thesis by (simp add: Let_def)
  next
    case False
    then show ?thesis
      using Cons by (cases "walk_index xs srv p") auto
  qed
qed

lemma slave_table_inv_initial: "slave_table_inv global_initial"
  by (simp add: slave_table_inv_def global_initial_def)

lemma slave_table_inv_add: 
  assumes "slave_table_inv g"
  shows "slave_table_inv (slave_host_add calloc_ok client header g)"
proof (cases client)
  case None
  then show ?thesis using assms by (simp add: slave_host_add_def)
next
  case c: (Some c)
  show ?thesis
  proof (cases header)
    case None
    then show ?thesis using assms c by (simp add: slave_host_add_def)
  next
    case h: (Some h)
    show ?thesis
    proof (cases "find_slave_host g (header_server h) (header_port h)")
      case None
      then show ?thesis
        using assms c h
        by (auto simp: slave_host_add_def add_slave_host_def slave_table_inv_def)
    next
      case (Some i)
      then have i: "i < length (slaves g)"
        using walk_index_Some by (simp add: find_slave_host_def)
      then have "1 \<le> sh_count (slaves g ! i)"
        using assms by (simp add: slave_table_inv_def)
      then have "\<forall>s\<in>set ((slaves g)[i := (slaves g ! i)\<lparr>sh_count := sh_count (slaves g ! i) + 1\<rparr>]). 1 \<le> sh_count s"
        using assms by (auto simp: slave_table_inv_def dest!: set_update_subset_insert [THEN subsetD])
      then show ?thesis
        using assms c h Some
        by (simp add: slave_host_add_def slave_table_inv_def)
    qed
  qed
qed

lemma slave_table_inv_remove_loop:
  assumes "n = int (length xs)" "\<forall>s\<in>set xs. 1 \<le> sh_count s"
    "slave_host_remove_loop srv p xs n = (ys, m)"
  shows "m = int (length ys) \<and> (\<forall>s\<in>set ys. 1 \<le> sh_count s)"
proof (cases "walk_index xs srv p")
  case None
  then show ?thesis using assms by (auto simp: slave_host_remove_loop_char)
next
  case (Some i)
  then have i: "i < length xs" using walk_index_Some by blast
  then have c1: "1 \<le> sh_count (xs ! i)" using assms(2) by simp
  show ?thesis
  proof (cases "sh_count (xs ! i) = 1")
    case True
    then have ys: "ys = take i xs @ drop (Suc i) xs" and m: "m = n - 1"
      using assms(3) Some by (simp_all add: slave_host_remove_loop_char)
    have "set ys \<subseteq> set xs"
      unfolding ys using set_take_subset set_drop_subset by fastforce
    moreover have "int (length ys) = n - 1"
      unfolding ys using i assms(1) by auto
    ultimately show ?thesis using assms(2) m by auto
  next
    case False
    then have ys: "ys = xs[i := (xs ! i)\<lparr> sh_count := sh_count (xs ! i) - 1 \<rparr>]" and m: "m = n"
      using assms(3) Some by (simp_all add: slave_host_remove_loop_char)
    have "1 \<le> sh_count (xs ! i) - 1" using c1 False by simp
    then have "\<forall>s\<in>set ys. 1 \<le> sh_count s"
      unfolding ys using assms(2)
      by (auto dest!: set_update_subset_insert [THEN subsetD])
    then show ?thesis using m assms(1) ys by simp
  qed
qed

lemma slave_table_inv_remove:
  assumes "slave_table_inv g"
  shows "slave_table_inv (slave_host_remove client g)"
proof (cases "httpp_getvar client ''ice-redirect''")
  case None
  then show ?thesis using assms by (simp add: slave_host_remove_def)
next
  case (Some v)
  obtain ys m where r: "slave_host_remove_loop (header_server v) (header_port v) (slaves g) (slave_count g) = (ys, m)"
    by (cases "slave_host_remove_loop (header_server v) (header_port v) (slaves g) (slave_count g)")
  from slave_table_inv_remove_loop [OF _ _ r] assms
  have "m = int (length ys) \<and> (\<forall>s\<in>set ys. 1 \<le> sh_count s)"
    by (simp add: slave_table_inv_def)
  then show ?thesis
    using assms Some r by (simp add: slave_host_remove_def slave_table_inv_def)
qed

lemma walk_index_found_after_add:
  "walk_index (xs[i := (xs ! i)\<lparr>sh_count := k\<rparr>]) srv p = walk_index xs srv p"
proof (induction xs arbitrary: i)
  case Nil
  show ?case by simp
next
  case (Cons x xs)
  show ?case by (cases i) (simp_all add: Cons)
qed

lemma sum_list_bump:
  "i < length xs \<Longrightarrow>
   sum_list (map sh_count (xs[i := (xs ! i)\<lparr>sh_count := sh_count (xs ! i) + 1\<rparr>])) =
   sum_list (map sh_count xs) + 1"
proof (induction xs arbitrary: i)
  case Nil
  then show ?case by simp
next
  case (Cons x xs)
  then show ?case by (cases i) simp_all
qed

lemmas atoi_eval = atoi_def strtol_def long_range_def int_of_long_def isspace_def isdigit_def

lemma digit_char_digit:
  assumes "d < 10"
  shows "isdigit (digit_char d) \<and> (of_char (digit_char d) :: int) = 48 + int d"
proof -
  have "d \<in> {0, 1, 2, 3, 4, 5, 6, 7, 8, 9}" using assms by auto
  then show ?thesis by (auto simp: digit_char_def isdigit_def)
qed

lemma isdigit_plain:
  "isdigit c \<Longrightarrow> \<not> isspace c \<and> c \<noteq> CHR ''-'' \<and> c \<noteq> CHR ''+''"
  by (auto simp: isdigit_def isspace_def)

lemma digits_value_digits_of:
  "digits_value acc (digits_of n @ rest) =
     digits_value (acc * 10 ^ length (digits_of n) + int n) rest"
proof (induction n arbitrary: acc rest rule: digits_of.induct)
  case (1 n)
  show ?case
  proof (cases "n < 10")
    case True
    then show ?thesis
      using digit_char_digit [OF True] by (simp add: digits_of.simps [of n])
  next
    case False
    have m: "n mod 10 < 10" by simp
    have d: "digits_of n = digits_of (n div 10) @ [digit_char (n mod 10)]"
      using False by (simp add: digits_of.simps [of n])
    have "digits_value acc (digits_of n @ rest) =
            digits_value acc (digits_of (n div 10) @ digit_char (n mod 10) # rest)"
      by (simp add: d)
    also have "\<dots> = digits_value (acc * 10 ^ length (digits_of (n div 10)) + int (n div 10))
                       (digit_char (n mod 10) # rest)"
      using 1 [OF False] by simp
    also have "\<dots> = digits_value ((acc * 10 ^ length (digits_of (n div 10)) + int (n div 10)) * 10
                          + int (n mod 10)) rest"
      using digit_char_digit [OF m] by simp
    also have "(acc * 10 ^ length (digits_of (n div 10)) + int (n div 10)) * 10 + int (n mod 10)
                 = acc * 10 ^ length (digits_of n) + int n"
    proof -
      have "int (n div 10) * 10 + int (n mod 10) = int n"
        by (simp add: zdiv_int zmod_int)
      then show ?thesis by (simp add: d algebra_simps)
    qed
    finally show ?thesis .
  qed
qed

lemma digits_value_stop: "rest = [] \<or> \<not> isdigit (hd rest) \<Longrightarrow> digits_value v rest = v"
  by (cases rest) auto

lemma digits_of_head: "\<exists>c cs. digits_of n = c # cs \<and> isdigit c"
proof (induction n rule: digits_of.induct)
  case (1 n)
  show ?case
  proof (cases "n < 10")
    case True
    then show ?thesis using digit_char_digit [OF True] by (simp add: digits_of.simps [of n])
  next
    case False
    from 1 [OF False] obtain c cs where "digits_of (n div 10) = c # cs" "isdigit c" by blast
    then show ?thesis using False by (simp add: digits_of.simps [of n])
  qed
qed

lemma strtol_digits_of:
  assumes "rest = [] \<or> \<not> isdigit (hd rest)"
  shows "strtol (digits_of n @ rest) = long_range (int n)"
proof -
  obtain c cs where d: "digits_of n = c # cs" and c: "isdigit c"
    using digits_of_head by blast
  have v: "digits_value 0 (digits_of n @ rest) = int n"
    using digits_value_digits_of [of 0 n rest] digits_value_stop [OF assms] by simp
  have "strtol (c # cs @ rest) = long_range (digits_value 0 (c # cs @ rest))"
    using isdigit_plain [OF c] by (simp add: strtol_def)
  then show ?thesis using v d by simp
qed

lemma strtol_show_int:
  assumes "rest = [] \<or> \<not> isdigit (hd rest)"
  shows "strtol (show_int n @ rest) = long_range n"
proof (cases "n < 0")
  case False
  then show ?thesis using strtol_digits_of [OF assms, of "nat n"] by (simp add: show_int_def)
next
  case True
  have v: "digits_value 0 (digits_of (nat (- n)) @ rest) = - n"
    using digits_value_digits_of [of 0 "nat (- n)" rest] digits_value_stop [OF assms] True by simp
  have "\<not> isspace (CHR ''-'')" by (simp add: isspace_def)
  then have "strtol (CHR ''-'' # digits_of (nat (- n)) @ rest) =
          long_range (- digits_value 0 (digits_of (nat (- n)) @ rest))"
    by (simp add: strtol_def)
  then show ?thesis using True v by (simp add: show_int_def)
qed

lemma int_of_long_range:
  "- 2147483648 \<le> n \<Longrightarrow> n \<le> 2147483647 \<Longrightarrow> int_of_long (long_range n) = n"
  by (simp add: int_of_long_def long_range_def)

lemma strtol_not_numeric:
  assumes "\<not> numeric s"
  shows "strtol s = 0"
proof (cases "dropWhile isspace s")
  case Nil
  show ?thesis unfolding strtol_def Nil by (simp add: long_range_def)
next
  case (Cons c cs)
  show ?thesis
  proof (cases "c = CHR ''-'' \<or> c = CHR ''+''")
    case True
    then have "cs = [] \<or> \<not> isdigit (hd cs)"
      using assms Cons by (cases cs) (auto simp: numeric_def)
    then have "digits_value 0 cs = 0" by (rule digits_value_stop)
    then show ?thesis using True Cons by (auto simp: strtol_def long_range_def)
  next
    case False
    then have "\<not> isdigit c" using assms Cons by (simp add: numeric_def)
    then show ?thesis using False Cons by (simp add: strtol_def long_range_def)
  qed
qed

lemma atoi_not_numeric: "\<not> numeric s \<Longrightarrow> atoi s = 0"
  by (simp add: atoi_def strtol_not_numeric int_of_long_def)

lemma atoi_skips_space: "\<forall>c \<in> set ws. isspace c \<Longrightarrow> atoi (ws @ t) = atoi t"
  by (simp add: atoi_def strtol_def dropWhile_append)

lemma header_split:
  assumes "CHR '':'' \<notin> set srv"
  shows "header_server (srv @ CHR '':'' # s) = srv \<and> header_port (srv @ CHR '':'' # s) = atoi s"
proof -
  have "dropWhile (\<lambda>c. c \<noteq> CHR '':'') (srv @ CHR '':'' # s) = CHR '':'' # s"
    using assms by (induction srv) auto
  moreover have "takeWhile (\<lambda>c. c \<noteq> CHR '':'') (srv @ CHR '':'' # s) = srv"
    using assms by (induction srv) auto
  ultimately show ?thesis by (simp add: header_server_def header_port_def)
qed

lemma header_has_colon:
  assumes "CHR '':'' \<in> set h"
  shows "h = header_server h @ CHR '':'' # tl (dropWhile (\<lambda>c. c \<noteq> CHR '':'') h)
         \<and> CHR '':'' \<notin> set (header_server h)"
proof -
  have "dropWhile (\<lambda>c. c \<noteq> CHR '':'') h \<noteq> []" using assms by (simp add: dropWhile_eq_Nil_conv)
  moreover have "hd (dropWhile (\<lambda>c. c \<noteq> CHR '':'') h) = CHR '':''"
    using hd_dropWhile [OF calculation] by simp
  ultimately have "dropWhile (\<lambda>c. c \<noteq> CHR '':'') h = CHR '':'' # tl (dropWhile (\<lambda>c. c \<noteq> CHR '':'') h)"
    by (cases "dropWhile (\<lambda>c. c \<noteq> CHR '':'') h") auto
  moreover have "h = takeWhile (\<lambda>c. c \<noteq> CHR '':'') h @ dropWhile (\<lambda>c. c \<noteq> CHR '':'') h" by simp
  moreover have "CHR '':'' \<notin> set (takeWhile (\<lambda>c. c \<noteq> CHR '':'') h)"
    using set_takeWhileD by fastforce
  ultimately show ?thesis by (simp add: header_server_def)
qed


subsection \<open>The slave host table keeps its invariant\<close>

text \<open>
  Claim C9.  The invariant of the slave host table (\<open>slave_count\<close> is the number of
  linked entries, and every linked entry has a count of at least 1) holds initially and
  is preserved by every \<^verbatim>\<open>slave_host_add\<close> and every \<^verbatim>\<open>slave_host_remove\<close>.
  For a header with a colon, \<^verbatim>\<open>slave_host_add\<close> increments the count of the first
  entry with that server and port if there is one, and otherwise (given memory) prepends
  an entry with count 1 and increments \<open>slave_count\<close>.  \<^verbatim>\<open>slave_host_remove\<close>
  decrements the count of the first entry with the server and port of the client's
  \<open>ice-redirect\<close> header; exactly when that count was 1, and so reaches 0, the entry is
  unlinked and \<open>slave_count\<close> decremented.
\<close>

theorem slave_table_invariant:
  "slave_table_inv global_initial
   \<and> (slave_table_inv g \<longrightarrow> slave_table_inv (slave_host_add calloc_ok client header g))
   \<and> (slave_table_inv g \<longrightarrow> slave_table_inv (slave_host_remove cl g))
   \<and> (CHR '':'' \<in> set h \<longrightarrow>
        slave_host_add calloc_ok (Some c) (Some h) g =
          (case find_slave_host g (header_server h) (header_port h) of
             Some i \<Rightarrow> g\<lparr> slaves := (slaves g)
                         [i := (slaves g ! i)\<lparr> sh_count := sh_count (slaves g ! i) + 1 \<rparr>] \<rparr>
           | None \<Rightarrow>
               if calloc_ok
               then g\<lparr> slaves := \<lparr> sh_server = header_server h, sh_port = header_port h,
                                    sh_count = 1 \<rparr> # slaves g,
                       slave_count := slave_count g + 1 \<rparr>
               else g))
   \<and> (httpp_getvar cl ''ice-redirect'' = Some v \<and> CHR '':'' \<in> set v \<longrightarrow>
        slave_host_remove cl g =
          (case find_slave_host g (header_server v) (header_port v) of
             None \<Rightarrow> g
           | Some i \<Rightarrow>
               if sh_count (slaves g ! i) - 1 = 0
               then g\<lparr> slaves := take i (slaves g) @ drop (Suc i) (slaves g),
                       slave_count := slave_count g - 1 \<rparr>
               else g\<lparr> slaves := (slaves g)
                         [i := (slaves g ! i)\<lparr> sh_count := sh_count (slaves g ! i) - 1 \<rparr>] \<rparr>))"
proof -
  have add: "slave_host_add calloc_ok (Some c) (Some h) g =
          (case find_slave_host g (header_server h) (header_port h) of
             Some i \<Rightarrow> g\<lparr> slaves := (slaves g)
                         [i := (slaves g ! i)\<lparr> sh_count := sh_count (slaves g ! i) + 1 \<rparr>] \<rparr>
           | None \<Rightarrow>
               if calloc_ok
               then g\<lparr> slaves := \<lparr> sh_server = header_server h, sh_port = header_port h,
                                    sh_count = 1 \<rparr> # slaves g,
                       slave_count := slave_count g + 1 \<rparr>
               else g)"
    if "CHR '':'' \<in> set h"
    using that by (simp add: slave_host_add_def add_slave_host_def split: option.splits)
  have remove: "slave_host_remove cl g =
          (case find_slave_host g (header_server v) (header_port v) of
             None \<Rightarrow> g
           | Some i \<Rightarrow>
               if sh_count (slaves g ! i) - 1 = 0
               then g\<lparr> slaves := take i (slaves g) @ drop (Suc i) (slaves g),
                       slave_count := slave_count g - 1 \<rparr>
               else g\<lparr> slaves := (slaves g)
                         [i := (slaves g ! i)\<lparr> sh_count := sh_count (slaves g ! i) - 1 \<rparr>] \<rparr>)"
    if "httpp_getvar cl ''ice-redirect'' = Some v" "CHR '':'' \<in> set v"
    using that
    by (simp add: slave_host_remove_def slave_host_remove_loop_char find_slave_host_def
          split: option.splits)
  show ?thesis
    using slave_table_inv_initial slave_table_inv_add slave_table_inv_remove add remove
    by blast
qed

theorem slave_table_invariant_witness:
  "slave_table_inv table_xy
   \<and> slave_table_inv (slave_host_add True (Some Map.empty) (Some ''x:1'') table_xy)
   \<and> slave_host_add True (Some Map.empty) (Some ''x:1'') table_xy =
       table_xy\<lparr> slaves := [host_x\<lparr> sh_count := 3 \<rparr>, host_y] \<rparr>
   \<and> slave_host_add True (Some Map.empty) (Some ''z:3'') table_xy =
       \<lparr> slaves = [\<lparr> sh_server = ''z'', sh_port = 3, sh_count = 1 \<rparr>, host_x, host_y],
         slave_count = 3 \<rparr>
   \<and> slave_table_inv (slave_host_remove (client_of ''y:2'') table_xy)
   \<and> slave_host_remove (client_of ''y:2'') table_xy = \<lparr> slaves = [host_x], slave_count = 1 \<rparr>
   \<and> slave_host_remove (client_of ''x:1'') table_xy =
       table_xy\<lparr> slaves := [host_x\<lparr> sh_count := 1 \<rparr>, host_y] \<rparr>"
proof -
  have inv: "slave_table_inv table_xy"
    by (simp add: slave_table_inv_def table_xy_def host_x_def host_y_def)
  have px: "CHR '':'' \<in> set ''x:1''" "header_server ''x:1'' = ''x''" "header_port ''x:1'' = 1"
    by (simp_all add: header_server_def header_port_def atoi_eval)
  have py: "CHR '':'' \<in> set ''y:2''" "header_server ''y:2'' = ''y''" "header_port ''y:2'' = 2"
    by (simp_all add: header_server_def header_port_def atoi_eval)
  have pz: "CHR '':'' \<in> set ''z:3''" "header_server ''z:3'' = ''z''" "header_port ''z:3'' = 3"
    by (simp_all add: header_server_def header_port_def atoi_eval)
  have f: "find_slave_host table_xy ''x'' 1 = Some 0" "find_slave_host table_xy ''y'' 2 = Some 1"
          "find_slave_host table_xy ''z'' 3 = None"
    by (simp_all add: find_slave_host_def table_xy_def host_x_def host_y_def)
  have g: "httpp_getvar (client_of ''y:2'') ''ice-redirect'' = Some ''y:2''"
          "httpp_getvar (client_of ''x:1'') ''ice-redirect'' = Some ''x:1''"
    by (simp_all add: httpp_getvar_def client_of_def)
  have t: "slaves table_xy = [host_x, host_y]" "slave_count table_xy = 2"
          "sh_count host_x = 2" "sh_count host_y = 1"
    by (simp_all add: table_xy_def host_x_def host_y_def)
  note a1 = slave_table_invariant [of table_xy True "Some Map.empty" "Some ''x:1''"
              "client_of ''y:2''" "''x:1''" Map.empty "''y:2''"]
  note a2 = slave_table_invariant [of table_xy True "Some Map.empty" "Some ''z:3''"
              "client_of ''x:1''" "''z:3''" Map.empty "''x:1''"]
  have b1: "slave_table_inv (slave_host_add True (Some Map.empty) (Some ''x:1'') table_xy)"
           "slave_table_inv (slave_host_remove (client_of ''y:2'') table_xy)"
    using a1 inv by blast+
  have b2: "slave_host_add True (Some Map.empty) (Some ''x:1'') table_xy =
       table_xy\<lparr> slaves := [host_x\<lparr> sh_count := 3 \<rparr>, host_y] \<rparr>"
    using a1 px f t by simp
  have b3: "slave_host_add True (Some Map.empty) (Some ''z:3'') table_xy =
       \<lparr> slaves = [\<lparr> sh_server = ''z'', sh_port = 3, sh_count = 1 \<rparr>, host_x, host_y],
         slave_count = 3 \<rparr>"
    using a2 pz f t by (simp add: table_xy_def)
  have b4: "slave_host_remove (client_of ''y:2'') table_xy = \<lparr> slaves = [host_x], slave_count = 1 \<rparr>"
    using a1 py f g t by (simp add: table_xy_def)
  have b5: "slave_host_remove (client_of ''x:1'') table_xy =
       table_xy\<lparr> slaves := [host_x\<lparr> sh_count := 1 \<rparr>, host_y] \<rparr>"
    using a2 px f g t by simp
  show ?thesis using inv b1 b2 b3 b4 b5 by blast
qed

subsection \<open>Parsing the redirect header\<close>

text \<open>
  Claim C10.  \<^verbatim>\<open>slave_host_add\<close> leaves the table alone for a null client, a null
  header and a header without a colon.  Every header with a colon is accepted: it is the
  server, the first colon and a text, the port is \<^verbatim>\<open>atoi\<close> of that text, and, with
  memory for a new entry, the table afterwards has an entry for that server and port and
  the counts sum to one more than before.  \<^verbatim>\<open>atoi\<close> skips leading white space; it
  reads a number printed in decimal and followed by no further digit as that number when
  it fits an \<^verbatim>\<open>int\<close>, and as the low 32 bits of the \<^verbatim>\<open>long\<close> that
  \<^verbatim>\<open>strtol\<close> yields otherwise (\<open>x:8000\<close> is port 8000, \<open>x:4294967297\<close> is port 1);
  it yields 0 for every text that is not numeric, that is, a text which after its white
  space and an optional sign does not go on with a digit.  So the headers \<open>host:abc\<close>
  and \<open>host:\<close> give an entry for port 0.  \<^verbatim>\<open>slave_host_remove\<close> parses the
  client's \<open>ice-redirect\<close> header the same way: it is a no-op without the header or
  without a colon, and a client with \<open>host:abc\<close> releases the entry for port 0.
\<close>

theorem slave_host_add_parsing:
  "slave_host_add calloc_ok None header g = g
   \<and> slave_host_add calloc_ok client None g = g
   \<and> (CHR '':'' \<notin> set h \<longrightarrow> slave_host_add calloc_ok (Some c) (Some h) g = g)
   \<and> (CHR '':'' \<in> set h \<longrightarrow>
        find_slave_host (slave_host_add True (Some c) (Some h) g)
           (header_server h) (header_port h) \<noteq> None
        \<and> sum_list (map sh_count (slaves (slave_host_add True (Some c) (Some h) g))) =
            sum_list (map sh_count (slaves g)) + 1
        \<and> CHR '':'' \<notin> set (header_server h)
        \<and> (\<exists>text. h = header_server h @ CHR '':'' # text \<and> header_port h = atoi text))
   \<and> (CHR '':'' \<notin> set srv \<longrightarrow>
        header_server (srv @ CHR '':'' # s) = srv \<and> header_port (srv @ CHR '':'' # s) = atoi s)
   \<and> ((\<forall>c \<in> set ws. isspace c) \<longrightarrow> atoi (ws @ t) = atoi t)
   \<and> (rest = [] \<or> \<not> isdigit (hd rest) \<longrightarrow>
        atoi (show_int n @ rest) = int_of_long (long_range n))
   \<and> (- 2147483648 \<le> n \<and> n \<le> 2147483647 \<longrightarrow> int_of_long (long_range n) = n)
   \<and> header_port ''x:8000'' = 8000
   \<and> header_port ''x:4294967297'' = 1
   \<and> (\<not> numeric s \<longrightarrow> atoi s = 0)
   \<and> (CHR '':'' \<notin> set srv \<and> \<not> numeric s \<longrightarrow> header_port (srv @ CHR '':'' # s) = 0)
   \<and> \<not> numeric ''abc'' \<and> \<not> numeric [] \<and> \<not> numeric '' -x'' \<and> \<not> numeric ''+''
   \<and> slave_host_add True (Some c) (Some ''host:abc'') global_initial =
        \<lparr> slaves = [\<lparr> sh_server = ''host'', sh_port = 0, sh_count = 1 \<rparr>], slave_count = 1 \<rparr>
   \<and> slave_host_add True (Some c) (Some ''host:'') global_initial =
        \<lparr> slaves = [\<lparr> sh_server = ''host'', sh_port = 0, sh_count = 1 \<rparr>], slave_count = 1 \<rparr>
   \<and> (httpp_getvar cl ''ice-redirect'' = None \<longrightarrow> slave_host_remove cl g = g)
   \<and> (httpp_getvar cl ''ice-redirect'' = Some v \<and> CHR '':'' \<notin> set v
        \<longrightarrow> slave_host_remove cl g = g)
   \<and> (httpp_getvar cl ''ice-redirect'' = Some v \<and> CHR '':'' \<in> set v
        \<longrightarrow> slave_host_remove cl g =
            (case slave_host_remove_loop (header_server v) (header_port v)
                    (slaves g) (slave_count g) of
               (slaves', n') \<Rightarrow> g\<lparr> slaves := slaves', slave_count := n' \<rparr>))
   \<and> slave_host_remove (client_of ''host:abc'')
        \<lparr> slaves = [\<lparr> sh_server = ''host'', sh_port = 0, sh_count = 1 \<rparr>], slave_count = 1 \<rparr>
        = global_initial"
proof -
  have n1: "slave_host_add calloc_ok None header g = g"
    by (simp add: slave_host_add_def)
  have n2: "slave_host_add calloc_ok client None g = g"
    by (simp add: slave_host_add_def split: option.splits)
  have n3: "CHR '':'' \<notin> set h \<longrightarrow> slave_host_add calloc_ok (Some c) (Some h) g = g"
    by (simp add: slave_host_add_def)
  have acc: "find_slave_host (slave_host_add True (Some c) (Some h) g)
           (header_server h) (header_port h) \<noteq> None
        \<and> sum_list (map sh_count (slaves (slave_host_add True (Some c) (Some h) g))) =
            sum_list (map sh_count (slaves g)) + 1"
    if colon: "CHR '':'' \<in> set h"
  proof (cases "find_slave_host g (header_server h) (header_port h)")
    case None
    then show ?thesis
      using colon
      by (simp add: slave_host_add_def add_slave_host_def find_slave_host_def)
  next
    case (Some i)
    then have i: "i < length (slaves g)"
      using walk_index_Some by (simp add: find_slave_host_def)
    show ?thesis
      using colon Some sum_list_bump [OF i]
      by (simp add: slave_host_add_def find_slave_host_def walk_index_found_after_add)
  qed
  have form: "CHR '':'' \<notin> set (header_server h)
        \<and> (\<exists>text. h = header_server h @ CHR '':'' # text \<and> header_port h = atoi text)"
    if colon: "CHR '':'' \<in> set h"
  proof -
    have "h = header_server h @ CHR '':'' # tl (dropWhile (\<lambda>c. c \<noteq> CHR '':'') h)"
      using header_has_colon [OF colon] by simp
    moreover have "header_port h = atoi (tl (dropWhile (\<lambda>c. c \<noteq> CHR '':'') h))"
      by (simp add: header_port_def)
    ultimately show ?thesis using header_has_colon [OF colon] by blast
  qed
  have n4: "CHR '':'' \<in> set h \<longrightarrow>
        find_slave_host (slave_host_add True (Some c) (Some h) g)
           (header_server h) (header_port h) \<noteq> None
        \<and> sum_list (map sh_count (slaves (slave_host_add True (Some c) (Some h) g))) =
            sum_list (map sh_count (slaves g)) + 1
        \<and> CHR '':'' \<notin> set (header_server h)
        \<and> (\<exists>text. h = header_server h @ CHR '':'' # text \<and> header_port h = atoi text)"
    using acc form by simp
  have sp: "CHR '':'' \<notin> set srv \<longrightarrow>
        header_server (srv @ CHR '':'' # s) = srv \<and> header_port (srv @ CHR '':'' # s) = atoi s"
    using header_split by simp
  have ws: "(\<forall>c \<in> set ws. isspace c) \<longrightarrow> atoi (ws @ t) = atoi t"
    using atoi_skips_space by simp
  have rt: "rest = [] \<or> \<not> isdigit (hd rest) \<longrightarrow>
        atoi (show_int n @ rest) = int_of_long (long_range n)"
    using strtol_show_int [of rest n] by (simp add: atoi_def)
  have rg: "- 2147483648 \<le> n \<and> n \<le> 2147483647 \<longrightarrow> int_of_long (long_range n) = n"
    using int_of_long_range by simp
  have p1: "header_port ''x:8000'' = 8000"
    by (simp add: header_port_def atoi_eval)
  have p2: "header_port ''x:4294967297'' = 1"
    by (simp add: header_port_def atoi_eval)
  have nn: "\<not> numeric s \<longrightarrow> atoi s = 0"
    using atoi_not_numeric by simp
  have at: "CHR '':'' \<notin> set srv \<and> \<not> numeric s \<longrightarrow> header_port (srv @ CHR '':'' # s) = 0"
    using header_split [of srv s] atoi_not_numeric [of s] by simp
  have nm: "\<not> numeric ''abc'' \<and> \<not> numeric [] \<and> \<not> numeric '' -x'' \<and> \<not> numeric ''+''"
    by (simp add: numeric_def isspace_def isdigit_def)
  have e1: "slave_host_add True (Some c) (Some ''host:abc'') global_initial =
        \<lparr> slaves = [\<lparr> sh_server = ''host'', sh_port = 0, sh_count = 1 \<rparr>], slave_count = 1 \<rparr>"
    by (simp add: slave_host_add_def add_slave_host_def find_slave_host_def global_initial_def
          header_server_def header_port_def atoi_eval)
  have e2: "slave_host_add True (Some c) (Some ''host:'') global_initial =
        \<lparr> slaves = [\<lparr> sh_server = ''host'', sh_port = 0, sh_count = 1 \<rparr>], slave_count = 1 \<rparr>"
    by (simp add: slave_host_add_def add_slave_host_def find_slave_host_def global_initial_def
          header_server_def header_port_def atoi_eval)
  have r1: "httpp_getvar cl ''ice-redirect'' = None \<longrightarrow> slave_host_remove cl g = g"
    by (simp add: slave_host_remove_def)
  have r2: "httpp_getvar cl ''ice-redirect'' = Some v \<and> CHR '':'' \<notin> set v
        \<longrightarrow> slave_host_remove cl g = g"
    by (simp add: slave_host_remove_def)
  have r3: "httpp_getvar cl ''ice-redirect'' = Some v \<and> CHR '':'' \<in> set v
        \<longrightarrow> slave_host_remove cl g =
            (case slave_host_remove_loop (header_server v) (header_port v)
                    (slaves g) (slave_count g) of
               (slaves', n') \<Rightarrow> g\<lparr> slaves := slaves', slave_count := n' \<rparr>)"
    by (simp add: slave_host_remove_def)
  have e3: "slave_host_remove (client_of ''host:abc'')
        \<lparr> slaves = [\<lparr> sh_server = ''host'', sh_port = 0, sh_count = 1 \<rparr>], slave_count = 1 \<rparr>
        = global_initial"
    by (simp add: slave_host_remove_def httpp_getvar_def client_of_def global_initial_def
          header_server_def header_port_def atoi_eval)
  show ?thesis
    apply (rule conjI [OF n1])
    apply (rule conjI [OF n2])
    apply (rule conjI [OF n3])
    apply (rule conjI [OF n4])
    apply (rule conjI [OF sp])
    apply (rule conjI [OF ws])
    apply (rule conjI [OF rt])
    apply (rule conjI [OF rg])
    apply (rule conjI [OF p1])
    apply (rule conjI [OF p2])
    apply (rule conjI [OF nn])
    apply (rule conjI [OF at])
    apply (rule conjI [OF nm [THEN conjunct1]])
    apply (rule conjI [OF nm [THEN conjunct2, THEN conjunct1]])
    apply (rule conjI [OF nm [THEN conjunct2, THEN conjunct2, THEN conjunct1]])
    apply (rule conjI [OF nm [THEN conjunct2, THEN conjunct2, THEN conjunct2]])
    apply (rule conjI [OF e1])
    apply (rule conjI [OF e2])
    apply (rule conjI [OF r1])
    apply (rule conjI [OF r2])
    apply (rule conjI [OF r3])
    apply (rule e3)
    done
qed

theorem slave_host_add_parsing_witness:
  "CHR '':'' \<notin> set ''nocolon'' \<and>
   slave_host_add True (Some Map.empty) (Some ''nocolon'') table_xy = table_xy \<and>
   CHR '':'' \<in> set ''x:abc'' \<and>
   find_slave_host (slave_host_add True (Some Map.empty) (Some ''x:abc'') table_xy)
      (header_server ''x:abc'') (header_port ''x:abc'') \<noteq> None \<and>
   CHR '':'' \<notin> set ''x'' \<and> \<not> numeric ''abc'' \<and>
   header_server ''x:abc'' = ''x'' \<and> header_port ''x:abc'' = 0 \<and>
   \<not> numeric '' -x'' \<and> header_port ''x: -x'' = 0 \<and>
   show_int 8000 = ''8000'' \<and> header_server ''x:8000'' = ''x'' \<and> header_port ''x:8000'' = 8000 \<and>
   show_int (- 7) = ''-7'' \<and> \<not> isdigit (hd ''a'') \<and> header_port ''x:-7a'' = - 7 \<and>
   isspace (CHR '' '') \<and> header_port ''x: 8000'' = 8000 \<and>
   show_int 4294967297 = ''4294967297'' \<and> int_of_long (long_range 4294967297) = 1 \<and>
   header_port ''x:4294967297'' = 1 \<and>
   httpp_getvar Map.empty ''ice-redirect'' = None \<and> slave_host_remove Map.empty table_xy = table_xy \<and>
   httpp_getvar (client_of ''nocolon'') ''ice-redirect'' = Some ''nocolon'' \<and>
   slave_host_remove (client_of ''nocolon'') table_xy = table_xy \<and>
   httpp_getvar (client_of ''y:2x'') ''ice-redirect'' = Some ''y:2x'' \<and>
   slave_host_remove (client_of ''y:2x'') table_xy =
     (case slave_host_remove_loop (header_server ''y:2x'') (header_port ''y:2x'')
             (slaves table_xy) (slave_count table_xy) of
        (slaves', n') \<Rightarrow> table_xy\<lparr> slaves := slaves', slave_count := n' \<rparr>)"
proof -
  have h1: "CHR '':'' \<notin> set ''nocolon''" "CHR '':'' \<in> set ''x:abc''" "CHR '':'' \<notin> set ''x''"
    "CHR '':'' \<in> set ''y:2x''"
    by simp_all
  have h2: "\<not> numeric ''abc''" "\<not> numeric '' -x''"
    by (simp_all add: numeric_def isdigit_def isspace_def)
  have h3: "httpp_getvar Map.empty ''ice-redirect'' = None"
    "httpp_getvar (client_of ''nocolon'') ''ice-redirect'' = Some ''nocolon''"
    "httpp_getvar (client_of ''y:2x'') ''ice-redirect'' = Some ''y:2x''"
    by (simp_all add: httpp_getvar_def client_of_def)
  have h4: "show_int 8000 = ''8000''" "show_int (- 7) = ''-7''"
    "show_int 4294967297 = ''4294967297''"
    by (simp_all add: show_int_def digits_of.simps digit_char_def)
  have h5: "\<not> isdigit (hd ''a'')" "\<forall>c \<in> set '' ''. isspace c" "isspace (CHR '' '')"
    by (simp_all add: isdigit_def isspace_def)
  have h6: "int_of_long (long_range 4294967297) = 1"
    by (simp add: int_of_long_def long_range_def)
  note t1 = slave_host_add_parsing [where calloc_ok = True and g = table_xy
              and h = "''nocolon''" and c = Map.empty and s = "''abc''" and srv = "''x''"
              and cl = Map.empty and v = "''nocolon''"
              and ws = "'' ''" and t = "''8000''" and rest = "[]" and n = 8000]
  note t2 = slave_host_add_parsing [where calloc_ok = True and g = table_xy
              and h = "''x:abc''" and c = Map.empty and s = "'' -x''" and srv = "''x''"
              and cl = "client_of ''nocolon''" and v = "''nocolon''"
              and ws = "'' ''" and t = "''8000''" and rest = "''a''" and n = "- 7"]
  note t3 = slave_host_add_parsing [where calloc_ok = True and g = table_xy
              and h = "''x:abc''" and c = Map.empty and s = "''8000''" and srv = "''x''"
              and cl = "client_of ''y:2x''" and v = "''y:2x''"
              and ws = "'' ''" and t = "''8000''" and rest = "[]" and n = 4294967297]
  note t4 = slave_host_add_parsing [where calloc_ok = True and g = table_xy
              and h = "''x:abc''" and c = Map.empty and s = "''-7a''" and srv = "''x''"
              and cl = "client_of ''y:2x''" and v = "''y:2x''"
              and ws = "'' ''" and t = "''8000''" and rest = "[]" and n = 8000]
  note t5 = slave_host_add_parsing [where calloc_ok = True and g = table_xy
              and h = "''x:abc''" and c = Map.empty and s = "'' 8000''" and srv = "''x''"
              and cl = "client_of ''y:2x''" and v = "''y:2x''"
              and ws = "'' ''" and t = "''8000''" and rest = "[]" and n = 8000]
  note t6 = slave_host_add_parsing [where calloc_ok = True and g = table_xy
              and h = "''x:abc''" and c = Map.empty and s = "''4294967297''" and srv = "''x''"
              and cl = "client_of ''y:2x''" and v = "''y:2x''"
              and ws = "'' ''" and t = "''8000''" and rest = "[]" and n = 8000]
  have w1: "slave_host_add True (Some Map.empty) (Some ''nocolon'') table_xy = table_xy"
    using t1 h1 by blast
  have w2: "find_slave_host (slave_host_add True (Some Map.empty) (Some ''x:abc'') table_xy)
      (header_server ''x:abc'') (header_port ''x:abc'') \<noteq> None"
    using t2 h1 by blast
  have w3: "header_server ''x:abc'' = ''x'' \<and> header_port ''x:abc'' = 0"
    using t1 h1 h2 by simp
  have w3': "header_port ''x: -x'' = 0"
    using t2 h1 h2 by simp
  have a1: "atoi ''8000'' = 8000"
    using t1 h4 by simp
  have a2: "atoi ''-7a'' = - 7"
    using t2 h4 h5 by simp
  have a3: "atoi ''4294967297'' = 1"
    using t3 h4 h6 by simp
  have a4: "atoi '' 8000'' = 8000"
    using t1 h5 a1 by simp
  have w7: "header_server ''x:8000'' = ''x'' \<and> header_port ''x:8000'' = 8000"
    using t3 h1 a1 by simp
  have w8: "header_port ''x:-7a'' = - 7"
    using t4 h1 a2 by simp
  have w9: "header_port ''x: 8000'' = 8000"
    using t5 h1 a4 by simp
  have w10: "header_port ''x:4294967297'' = 1"
    using t6 h1 a3 by simp
  have w4: "slave_host_remove Map.empty table_xy = table_xy"
    using t1 h3 by blast
  have w5: "slave_host_remove (client_of ''nocolon'') table_xy = table_xy"
    using t2 h1 h3 by blast
  have w6: "slave_host_remove (client_of ''y:2x'') table_xy =
     (case slave_host_remove_loop (header_server ''y:2x'') (header_port ''y:2x'')
             (slaves table_xy) (slave_count table_xy) of
        (slaves', n') \<Rightarrow> table_xy\<lparr> slaves := slaves', slave_count := n' \<rparr>)"
    using t3 h1 h3 by blast
  show ?thesis
    using h1 h2 h3 h4 h5 h6 w1 w2 w3 w3' w4 w5 w6 w7 w8 w9 w10 by blast
qed

subsection \<open>The request of the relay worker\<close>

lemma digits_of_length: "0 < k \<Longrightarrow> n < 10 ^ k \<Longrightarrow> length (digits_of n) \<le> k"
proof (induction k arbitrary: n)
  case 0
  then show ?case by simp
next
  case (Suc k)
  show ?case
  proof (cases "n < 10")
    case True
    then show ?thesis by (simp add: digits_of.simps)
  next
    case False
    then have k: "0 < k" using Suc.prems by (cases k) auto
    have "n div 10 < 10 ^ k" using Suc.prems(2) by simp
    from Suc.IH [OF k this] False show ?thesis
      by (subst digits_of.simps) simp
  qed
qed

lemma show_int_port_length:
  assumes "0 \<le> p" "p \<le> 65535"
  shows "length (show_int p) \<le> 5"
proof -
  have "nat p < 10 ^ 5" using assms by simp
  from digits_of_length [OF _ this] assms show ?thesis
    by (simp add: show_int_def)
qed

lemma snprintf_fits: "length s < n \<Longrightarrow> snprintf n s = s"
  by (simp add: snprintf_def)

text \<open>
  Claim C4, as the code has it.  For a redirect port in the range of port numbers, the
  request is the request line and the User-Agent line, then the Icy-MetaData line iff
  \<open>mp3metadata\<close> is set, then the ice-redirect line iff the redirect port is non-zero
  and the relay has both a user name and a password, then the Authorization line iff
  the relay has both a user name and a password, then the empty line.  The ice-redirect
  header is built inside the branch for the credentials; a relay without credentials
  never sends it.
\<close>

theorem relay_request_headers:
  assumes "0 \<le> master_redirect_port config" and "master_redirect_port config \<le> 65535"
  shows "start_relay_stream_request util_base64_encode version config relay =
     ''GET '' @ mount relay @ '' HTTP/1.0'' @ CRLF
     @ ''User-Agent: '' @ version @ CRLF
     @ (if mp3metadata relay \<noteq> 0 then ''Icy-MetaData: 1'' @ CRLF else [])
     @ (if master_redirect_port config \<noteq> 0 \<and> username relay \<noteq> None \<and> password relay \<noteq> None
        then ''ice-redirect: '' @ hostname config @ '':''
               @ show_int (master_redirect_port config) @ CRLF
        else [])
     @ (if username relay \<noteq> None \<and> password relay \<noteq> None
        then ''Authorization: Basic ''
               @ util_base64_encode (the (username relay) @ '':'' @ the (password relay)) @ CRLF
        else [])
     @ CRLF"
proof (cases "username relay")
  case None
  then show ?thesis by (simp add: start_relay_stream_request_def)
next
  case u: (Some user)
  show ?thesis
  proof (cases "password relay")
    case None
    then show ?thesis using u by (simp add: start_relay_stream_request_def)
  next
    case p: (Some pass)
    show ?thesis
      using u p show_int_port_length [OF assms]
      by (simp add: start_relay_stream_request_def Let_def snprintf_fits CRLF_def)
  qed
qed

theorem relay_request_headers_witness:
  "0 \<le> master_redirect_port config_8001 \<and> master_redirect_port config_8001 \<le> 65535 \<and>
   start_relay_stream_request id ''Icecast'' config_8001 relay_auth =
     ''GET /m HTTP/1.0'' @ CRLF @ ''User-Agent: Icecast'' @ CRLF @ ''Icy-MetaData: 1'' @ CRLF
     @ ''ice-redirect: me:8001'' @ CRLF @ ''Authorization: Basic u:p'' @ CRLF @ CRLF"
proof -
  have r: "0 \<le> master_redirect_port config_8001" "master_redirect_port config_8001 \<le> 65535"
    by (simp_all add: config_8001_def)
  have s: "show_int 8001 = ''8001''"
    by (simp add: show_int_def digits_of.simps digit_char_def)
  show ?thesis
    using relay_request_headers [OF r, of id "''Icecast''" relay_auth] r
    by (simp add: config_8001_def relay_auth_def relay_plain_def s)
qed

text \<open>
  The claim as stated, an ice-redirect header whenever the redirect port is non-zero
  whether or not the relay has credentials, fails for a relay without credentials:
  with redirect port 8001 the request has two header lines and neither is ice-redirect.
\<close>

theorem relay_request_no_redirect_without_credentials:
  "master_redirect_port config_8001 \<noteq> 0 \<and>
   start_relay_stream_request id ''Icecast'' config_8001 relay_plain =
     ''GET /m HTTP/1.0'' @ CRLF @ ''User-Agent: Icecast'' @ CRLF @ ''Icy-MetaData: 1'' @ CRLF @ CRLF \<and>
   header_lines (start_relay_stream_request id ''Icecast'' config_8001 relay_plain) =
     [''User-Agent: Icecast'', ''Icy-MetaData: 1''] \<and>
   ''ice-redirect: me:8001'' \<notin>
     set (header_lines (start_relay_stream_request id ''Icecast'' config_8001 relay_plain))"
  by (simp add: start_relay_stream_request_def config_8001_def relay_plain_def
        header_lines_def CRLF_def)

subsection \<open>The relay worker after a failed step\<close>

lemma start_relay_stream_writes_request:
  assumes "source relay = Some src" "connect_ok env"
    "start_relay_stream util_base64_encode version config source_find_mount env sources relay = Inr r"
  shows "Sock_write (start_relay_stream_request util_base64_encode version config relay)
           \<in> set (wr_events r)"
proof -
  have "start_relay_stream_request util_base64_encode version config (relay\<lparr>running := 1\<rparr>)
        = start_relay_stream_request util_base64_encode version config relay"
    by (simp add: start_relay_stream_request_def)
  then show ?thesis
    using assms
    by (auto simp: start_relay_stream_def start_relay_stream_failed_def Let_def
          split: if_splits)
qed

lemma start_relay_stream_break:
  assumes "source relay = Some src" and "first_failure env = Some f"
  shows "\<exists>pre. start_relay_stream util_base64_encode version config source_find_mount env sources relay =
           Inr \<lparr> wr_relay = relay\<lparr> running := 1, cleanup := 1 \<rparr>,
                 wr_sources = sources,
                 wr_rescan_relays = 1,
                 wr_events = pre
                   @ fallback_events source_find_mount sources src
                   @ (if con_at_break f then [Connection_close] else [])
                   @ (if parser_at_break f then [Httpp_destroy] else [])
                   @ [Source_clear_source src] \<rparr>
         \<and> (\<forall>e \<in> set pre. \<not> is_release e)
         \<and> (Client_create src \<in> set pre \<longleftrightarrow> f = Client_failed \<or> f = Complete_failed)"
proof (cases f)
  case Connect_failed
  then have "\<not> connect_ok env"
    using assms(2) by (auto simp: first_failure_def split: if_splits)
  then show ?thesis
    using assms(1) Connect_failed
    by (simp add: start_relay_stream_def start_relay_stream_failed_def fallback_events_def
          con_at_break_def parser_at_break_def is_release_def Let_def)
next
  case Header_failed
  then have "connect_ok env" "\<not> header_ok env"
    using assms(2) by (auto simp: first_failure_def split: if_splits)
  then show ?thesis
    using assms(1) Header_failed
    by (simp add: start_relay_stream_def start_relay_stream_failed_def fallback_events_def
          con_at_break_def parser_at_break_def is_release_def Let_def)
next
  case Parse_failed
  then have "connect_ok env" "header_ok env" "\<not> parse_ok env"
    using assms(2) by (auto simp: first_failure_def split: if_splits)
  then show ?thesis
    using assms(1) Parse_failed
    by (simp add: start_relay_stream_def start_relay_stream_failed_def fallback_events_def
          con_at_break_def parser_at_break_def is_release_def Let_def)
next
  case Parser_error
  then have "connect_ok env" "header_ok env" "parse_ok env" "error_message env \<noteq> None"
    using assms(2) by (auto simp: first_failure_def split: if_splits)
  then show ?thesis
    using assms(1) Parser_error
    by (simp add: start_relay_stream_def start_relay_stream_failed_def fallback_events_def
          con_at_break_def parser_at_break_def is_release_def Let_def)
next
  case Client_failed
  then have "connect_ok env" "header_ok env" "parse_ok env" "error_message env = None"
    "\<not> client_create_ok env"
    using assms(2) by (auto simp: first_failure_def split: if_splits)
  then show ?thesis
    using assms(1) Client_failed
    by (simp add: start_relay_stream_def start_relay_stream_failed_def fallback_events_def
          con_at_break_def parser_at_break_def is_release_def Let_def)
next
  case Complete_failed
  then have "connect_ok env" "header_ok env" "parse_ok env" "error_message env = None"
    "client_create_ok env" "\<not> complete_ok env"
    using assms(2) by (auto simp: first_failure_def split: if_splits)
  then show ?thesis
    using assms(1) Complete_failed
    by (simp add: start_relay_stream_def start_relay_stream_failed_def fallback_events_def
          con_at_break_def parser_at_break_def is_release_def Let_def)
qed

lemma fallback_events_move:
  "Source_move_clients a t \<in> set (fallback_events source_find_mount sources src) \<longleftrightarrow>
     a = src \<and> (\<exists>fb. fallback_mount (sources src) = Some fb \<and> source_find_mount fb = Some t)"
proof (cases "fallback_mount (sources src)")
  case None
  then show ?thesis by (simp add: fallback_events_def)
next
  case (Some fb)
  then show ?thesis
    by (cases "source_find_mount fb") (auto simp: fallback_events_def)
qed

lemma fallback_events_no_free:
  "Connection_close \<notin> set (fallback_events source_find_mount sources src)"
  "Httpp_destroy \<notin> set (fallback_events source_find_mount sources src)"
  by (auto simp: fallback_events_def split: option.splits)

lemma start_relay_stream_pumped:
  assumes "source relay = Some src" "first_failure env = None"
  shows "\<exists>r. start_relay_stream util_base64_encode version config source_find_mount env sources relay = Inr r
           \<and> Connection_close \<notin> set (wr_events r) \<and> Httpp_destroy \<notin> set (wr_events r)
           \<and> Source_main src \<in> set (wr_events r)
           \<and> cleanup (wr_relay r) = 1 \<and> wr_rescan_relays r = 1"
proof -
  have "connect_ok env" "header_ok env" "parse_ok env" "error_message env = None"
    "client_create_ok env" "complete_ok env"
    using assms(2) by (auto simp: first_failure_def split: if_splits)
  then show ?thesis
    using assms(1) by (simp add: start_relay_stream_def Let_def)
qed

lemma ownership_at_break:
  "(f \<noteq> Client_failed \<longrightarrow>
      con_at_break f = owns_connection f \<and> parser_at_break f = owns_parser f)
   \<and> \<not> con_at_break Client_failed \<and> \<not> parser_at_break Client_failed
   \<and> \<not> con_at_break Complete_failed \<and> \<not> parser_at_break Complete_failed"
  by (cases f) (simp_all add: con_at_break_def parser_at_break_def owns_connection_def
                   owns_parser_def)

text \<open>
  Claim C7, as the code has it.  Let the record have a source.  In a run whose first
  failing step is the connect, the header read, the parse, the parser's error variable,
  the client creation or the source completion, the worker ends as follows: if the source
  has a fallback mount it looks the mount up between taking and releasing the read lock
  of the source tree and, if the lookup finds a source, moves the clients to it with
  \<^verbatim>\<open>source_move_clients\<close> (and moves no clients otherwise); then it closes the
  connection if its pointer \<^verbatim>\<open>con\<close> is set, destroys the parser if its pointer
  \<^verbatim>\<open>parser\<close> is set, clears the source, sets the record's \<open>cleanup\<close> to 1 and
  raises \<open>rescan_relays\<close>.  Before that tail it has released nothing and
  \<^verbatim>\<open>source_main\<close> has not run.  The two pointers are set exactly for what the
  worker owns in the specification's reading, but for one step: once \<^verbatim>\<open>client_create\<close>
  has been called, and not only once it has succeeded, the worker neither closes the
  connection nor destroys the parser.
\<close>

theorem start_relay_stream_failure:
  assumes "source relay = Some src"
  shows "(first_failure env = Some f \<longrightarrow>
          (\<exists>pre r.
             start_relay_stream util_base64_encode version config source_find_mount env sources relay
               = Inr r
           \<and> wr_relay r = relay\<lparr> running := 1, cleanup := 1 \<rparr>
           \<and> wr_rescan_relays r = 1
           \<and> wr_events r = pre
                   @ fallback_events source_find_mount sources src
                   @ (if con_at_break f then [Connection_close] else [])
                   @ (if parser_at_break f then [Httpp_destroy] else [])
                   @ [Source_clear_source src]
           \<and> (\<forall>e \<in> set pre. \<not> is_release e)
           \<and> (\<forall>t. Source_move_clients src t \<in> set (wr_events r) \<longleftrightarrow>
                  (\<exists>fb. fallback_mount (sources src) = Some fb \<and> source_find_mount fb = Some t))
           \<and> (f \<noteq> Client_failed \<longrightarrow>
                  con_at_break f = owns_connection f \<and> parser_at_break f = owns_parser f)
           \<and> (f = Client_failed \<or> f = Complete_failed \<longrightarrow>
                  Connection_close \<notin> set (wr_events r) \<and> Httpp_destroy \<notin> set (wr_events r))))
       \<and> (first_failure env = None \<longrightarrow>
          (\<exists>r.
             start_relay_stream util_base64_encode version config source_find_mount env sources relay
               = Inr r
           \<and> Connection_close \<notin> set (wr_events r) \<and> Httpp_destroy \<notin> set (wr_events r)))"
proof (intro conjI impI)
  assume ff: "first_failure env = Some f"
  from start_relay_stream_break [OF assms ff, of util_base64_encode version config source_find_mount sources]
  obtain pre where
    r: "start_relay_stream util_base64_encode version config source_find_mount env sources relay =
           Inr \<lparr> wr_relay = relay\<lparr> running := 1, cleanup := 1 \<rparr>,
                 wr_sources = sources,
                 wr_rescan_relays = 1,
                 wr_events = pre
                   @ fallback_events source_find_mount sources src
                   @ (if con_at_break f then [Connection_close] else [])
                   @ (if parser_at_break f then [Httpp_destroy] else [])
                   @ [Source_clear_source src] \<rparr>"
    and pre: "\<forall>e \<in> set pre. \<not> is_release e"
    by blast
  have nomove: "Source_move_clients a t \<notin> set pre" for a t
    using pre by (auto simp: is_release_def)
  have nofree: "Connection_close \<notin> set pre" "Httpp_destroy \<notin> set pre"
    using pre by (auto simp: is_release_def)
  have own: "f = Client_failed \<or> f = Complete_failed \<Longrightarrow> \<not> con_at_break f \<and> \<not> parser_at_break f"
    by (auto simp: con_at_break_def parser_at_break_def)
  have spec: "f \<noteq> Client_failed \<longrightarrow>
                  con_at_break f = owns_connection f \<and> parser_at_break f = owns_parser f"
    using ownership_at_break [of f] by blast
  show "\<exists>pre r.
             start_relay_stream util_base64_encode version config source_find_mount env sources relay
               = Inr r
           \<and> wr_relay r = relay\<lparr> running := 1, cleanup := 1 \<rparr>
           \<and> wr_rescan_relays r = 1
           \<and> wr_events r = pre
                   @ fallback_events source_find_mount sources src
                   @ (if con_at_break f then [Connection_close] else [])
                   @ (if parser_at_break f then [Httpp_destroy] else [])
                   @ [Source_clear_source src]
           \<and> (\<forall>e \<in> set pre. \<not> is_release e)
           \<and> (\<forall>t. Source_move_clients src t \<in> set (wr_events r) \<longleftrightarrow>
                  (\<exists>fb. fallback_mount (sources src) = Some fb \<and> source_find_mount fb = Some t))
           \<and> (f \<noteq> Client_failed \<longrightarrow>
                  con_at_break f = owns_connection f \<and> parser_at_break f = owns_parser f)
           \<and> (f = Client_failed \<or> f = Complete_failed \<longrightarrow>
                  Connection_close \<notin> set (wr_events r) \<and> Httpp_destroy \<notin> set (wr_events r))"
    apply (rule exI [of _ pre])
    apply (rule exI)
    apply (rule conjI [OF r])
    using pre own spec
    apply (auto simp: nomove nofree fallback_events_move fallback_events_no_free)
    done
next
  assume "first_failure env = None"
  from start_relay_stream_pumped [OF assms this, of util_base64_encode version config source_find_mount sources]
  show "\<exists>r.
             start_relay_stream util_base64_encode version config source_find_mount env sources relay
               = Inr r
           \<and> Connection_close \<notin> set (wr_events r) \<and> Httpp_destroy \<notin> set (wr_events r)"
    by blast
qed

theorem start_relay_stream_failure_witness:
  "source relay_plain = Some 1 \<and> first_failure env_parse_error = Some Parse_failed \<and>
   (\<exists>pre r.
      start_relay_stream id ''Icecast'' config_8001 find_fb env_parse_error sources_fb relay_plain
         = Inr r
      \<and> wr_relay r = relay_plain\<lparr> running := 1, cleanup := 1 \<rparr>
      \<and> wr_rescan_relays r = 1
      \<and> wr_events r = pre
           @ [Log DEBUG ''failed relay, fallback'', Avl_tree_rlock, Source_find_mount ''/fb'',
              Source_move_clients 1 2, Avl_tree_unlock]
           @ [Connection_close] @ [Httpp_destroy] @ [Source_clear_source 1])
   \<and> first_failure env_complete_failed = Some Complete_failed \<and>
   (\<exists>r.
      start_relay_stream id ''Icecast'' config_8001 find_fb env_complete_failed sources_fb relay_plain
         = Inr r
      \<and> Connection_close \<notin> set (wr_events r) \<and> Httpp_destroy \<notin> set (wr_events r)
      \<and> Source_move_clients 1 2 \<in> set (wr_events r))"
proof -
  have s: "source relay_plain = Some 1" by (simp add: relay_plain_def)
  have f1: "first_failure env_parse_error = Some Parse_failed"
    by (simp add: first_failure_def env_parse_error_def)
  have f2: "first_failure env_complete_failed = Some Complete_failed"
    by (simp add: first_failure_def env_complete_failed_def)
  have fb: "fallback_events find_fb sources_fb 1 =
      [Log DEBUG ''failed relay, fallback'', Avl_tree_rlock, Source_find_mount ''/fb'',
              Source_move_clients 1 2, Avl_tree_unlock]"
    by (simp add: fallback_events_def find_fb_def sources_fb_def source_idle_def)
  have fm: "fallback_mount (sources_fb 1) = Some ''/fb''" "find_fb ''/fb'' = Some 2"
    by (simp_all add: find_fb_def sources_fb_def source_idle_def)
  have o: "con_at_break Parse_failed" "parser_at_break Parse_failed"
    by (simp_all add: con_at_break_def parser_at_break_def)
  note t1 = start_relay_stream_failure [OF s, where env = env_parse_error and f = Parse_failed
     and util_base64_encode = id and version = "''Icecast''" and config = config_8001
     and source_find_mount = find_fb and sources = sources_fb]
  note t2 = start_relay_stream_failure [OF s, where env = env_complete_failed and f = Complete_failed
     and util_base64_encode = id and version = "''Icecast''" and config = config_8001
     and source_find_mount = find_fb and sources = sources_fb]
  have w1: "\<exists>pre r.
      start_relay_stream id ''Icecast'' config_8001 find_fb env_parse_error sources_fb relay_plain
         = Inr r
      \<and> wr_relay r = relay_plain\<lparr> running := 1, cleanup := 1 \<rparr>
      \<and> wr_rescan_relays r = 1
      \<and> wr_events r = pre
           @ [Log DEBUG ''failed relay, fallback'', Avl_tree_rlock, Source_find_mount ''/fb'',
              Source_move_clients 1 2, Avl_tree_unlock]
           @ [Connection_close] @ [Httpp_destroy] @ [Source_clear_source 1]"
    using t1 f1 o fb by auto
  have w2: "\<exists>r.
      start_relay_stream id ''Icecast'' config_8001 find_fb env_complete_failed sources_fb relay_plain
         = Inr r
      \<and> Connection_close \<notin> set (wr_events r) \<and> Httpp_destroy \<notin> set (wr_events r)
      \<and> Source_move_clients 1 2 \<in> set (wr_events r)"
    using t2 f2 fm by auto
  show ?thesis using s f1 f2 w1 w2 by blast
qed

text \<open>
  Claim C7, as the specification has it, fails where \<^verbatim>\<open>client_create\<close> fails.  In
  the specification's reading the worker then still owns the connection and the parser,
  and the claim has it close the one and destroy the other.  The code does neither: it
  clears both pointers in that branch, leaving the two to \<^verbatim>\<open>client_destroy\<close>.  The
  run below connects, reads and parses the header, and \<^verbatim>\<open>client_create\<close> fails.
\<close>

theorem start_relay_stream_client_create_failed:
  "source relay_plain = Some 1 \<and>
   first_failure env_client_failed = Some Client_failed \<and>
   owns_connection Client_failed \<and> owns_parser Client_failed \<and>
   start_relay_stream id ''Icecast'' config_8001 find_fb env_client_failed sources_fb relay_plain =
     Inr \<lparr> wr_relay = relay_plain\<lparr> running := 1, cleanup := 1 \<rparr>,
           wr_sources = sources_fb,
           wr_rescan_relays = 1,
           wr_events =
             [Log INFO ''Starting relayed source at mountpoint'',
              Sock_connect_wto ''up'' 8000,
              Connection_create,
              Sock_write (start_relay_stream_request id ''Icecast'' config_8001 relay_plain),
              Util_read_header,
              Httpp_create_parser, Httpp_parse_response,
              Global_lock, Client_create 1, Global_unlock,
              Log DEBUG ''failed relay, fallback'', Avl_tree_rlock, Source_find_mount ''/fb'',
              Source_move_clients 1 2, Avl_tree_unlock,
              Source_clear_source 1] \<rparr> \<and>
   Connection_create \<in> set (wr_events (projr
     (start_relay_stream id ''Icecast'' config_8001 find_fb env_client_failed sources_fb relay_plain))) \<and>
   Httpp_create_parser \<in> set (wr_events (projr
     (start_relay_stream id ''Icecast'' config_8001 find_fb env_client_failed sources_fb relay_plain))) \<and>
   Connection_close \<notin> set (wr_events (projr
     (start_relay_stream id ''Icecast'' config_8001 find_fb env_client_failed sources_fb relay_plain))) \<and>
   Httpp_destroy \<notin> set (wr_events (projr
     (start_relay_stream id ''Icecast'' config_8001 find_fb env_client_failed sources_fb relay_plain)))"
proof -
  have q: "start_relay_stream_request id ''Icecast'' config_8001 (relay_plain\<lparr>running := 1\<rparr>)
        = start_relay_stream_request id ''Icecast'' config_8001 relay_plain"
    by (simp add: start_relay_stream_request_def)
  have r: "start_relay_stream id ''Icecast'' config_8001 find_fb env_client_failed sources_fb relay_plain =
     Inr \<lparr> wr_relay = relay_plain\<lparr> running := 1, cleanup := 1 \<rparr>,
           wr_sources = sources_fb,
           wr_rescan_relays = 1,
           wr_events =
             [Log INFO ''Starting relayed source at mountpoint'',
              Sock_connect_wto ''up'' 8000,
              Connection_create,
              Sock_write (start_relay_stream_request id ''Icecast'' config_8001 relay_plain),
              Util_read_header,
              Httpp_create_parser, Httpp_parse_response,
              Global_lock, Client_create 1, Global_unlock,
              Log DEBUG ''failed relay, fallback'', Avl_tree_rlock, Source_find_mount ''/fb'',
              Source_move_clients 1 2, Avl_tree_unlock,
              Source_clear_source 1] \<rparr>"
    unfolding q [symmetric]
    by (simp add: start_relay_stream_def start_relay_stream_failed_def env_client_failed_def
          relay_plain_def sources_fb_def find_fb_def source_idle_def Let_def)
  have s: "source relay_plain = Some 1" by (simp add: relay_plain_def)
  have f: "first_failure env_client_failed = Some Client_failed"
    by (simp add: first_failure_def env_client_failed_def)
  have o: "owns_connection Client_failed \<and> owns_parser Client_failed"
    by (simp add: owns_connection_def owns_parser_def)
  show ?thesis
    unfolding r using s f o by simp
qed

subsection \<open>Auxiliary facts about the start check\<close>

lemma check_relay_stream_settings_char:
  "check_relay_stream_settings ext config relay src w =
     w\<lparr> w_sources := (w_sources w)(src := settled_source ext config relay src w),
         w_update_settings := 1, w_rescan_relays := 1,
         w_events := w_events w @ settings_events config relay src \<rparr>"
proof (cases "config_find_mount config (localmount relay)")
  case None
  then show ?thesis
    by (simp add: check_relay_stream_settings_def settled_source_def settings_events_def
          slave_rebuild_mounts_def emit_def)
next
  case (Some m)
  then show ?thesis
    by (simp add: check_relay_stream_settings_def settled_source_def settings_events_def
          slave_rebuild_mounts_def emit_def)
qed


lemma check_relay_stream_override_char:
  "check_relay_stream_override ext src w =
     w\<lparr> w_sources := (w_sources w)
           (src := if fallback_demand ext (w_tree w) (w_sources w) src
                   then (w_sources w src)\<lparr> on_demand_req := 1 \<rparr>
                   else w_sources w src),
         w_events := w_events w
            @ override_events ext (fallback_demand ext (w_tree w) (w_sources w) src)
                (w_sources w src) \<rparr>"
proof (cases "fallback_mount (w_sources w src)")
  case None
  then show ?thesis
    by (simp add: check_relay_stream_override_def fallback_demand_def override_events_def)
next
  case fb: (Some fb)
  show ?thesis
  proof (cases "fallback_override (w_sources w src) = 0")
    case True
    then show ?thesis
      using fb
      by (simp add: check_relay_stream_override_def fallback_demand_def override_events_def)
  next
    case ov: False
    show ?thesis
    proof (cases "x_source_find_mount ext (w_tree w) fb")
      case None
      then show ?thesis
        using fb ov
        by (simp add: check_relay_stream_override_def fallback_demand_def override_events_def
              emit_def)
    next
      case (Some f)
      show ?thesis
      proof (cases "src_running (w_sources w f) \<noteq> 0 \<and> listeners (w_sources w f) \<noteq> 0")
        case True
        then show ?thesis
          using fb ov Some
          by (simp add: check_relay_stream_override_def fallback_demand_def override_events_def
                emit_def)
      next
        case False
        then have nd: "\<not> (src_running (w_sources w f) \<noteq> 0 \<and> 0 < listeners (w_sources w f))"
          by simp
        show ?thesis
          using fb ov Some nd
          by (simp add: check_relay_stream_override_def fallback_demand_def override_events_def
                emit_def Let_def del: de_Morgan_conj not_gr_zero)
      qed
    qed
  qed
qed

lemma check_relay_stream_on_demand_char:
  "check_relay_stream_on_demand ext config relay src w =
     w\<lparr> w_sources := (w_sources w)
            (src := if override_demand ext config relay src w
                    then (settled_source ext config relay src w)\<lparr> on_demand_req := 1 \<rparr>
                    else settled_source ext config relay src w),
         w_update_settings := 1, w_rescan_relays := 1,
         w_events := w_events w @ settings_events config relay src
            @ override_events ext (override_demand ext config relay src w)
                (settled_source ext config relay src w) \<rparr>"
  by (simp add: check_relay_stream_on_demand_def check_relay_stream_override_char
        check_relay_stream_settings_char override_demand_def)


lemma check_relay_stream_sweep_events:
  "check_relay_stream_sweep ext config relay w = Inr (r', w') \<Longrightarrow>
     \<exists>evs. w_events w' = w_events w @ evs \<and> (\<forall>e \<in> set evs. \<not> is_thread_create e)"
  by (auto simp: check_relay_stream_sweep_def emit_def slave_rebuild_mounts_def Let_def
        is_thread_create_def split: if_splits option.splits)

lemma check_relay_stream_sweep_total:
  "source relay \<noteq> None \<Longrightarrow> \<exists>r' w'. check_relay_stream_sweep ext config relay w = Inr (r', w')"
  by (auto simp: check_relay_stream_sweep_def Let_def split: option.splits)

lemma settings_events_update:
  "(\<exists>e \<in> set (settings_events config relay src). is_update_settings e) \<longleftrightarrow>
     config_find_mount config (localmount relay) = None"
  by (simp add: settings_events_def is_update_settings_def)

lemma override_events_plain:
  "\<forall>e \<in> set (override_events ext d s). \<not> is_update_settings e \<and> \<not> is_thread_create e"
  by (auto simp: override_events_def is_update_settings_def is_thread_create_def
        split: option.splits)

lemma settings_events_no_thread:
  "\<forall>e \<in> set (settings_events config relay src). \<not> is_thread_create e"
  by (simp add: settings_events_def is_thread_create_def)

lemma check_relay_stream_on_demand_unfold:
  assumes "source relay = Some src" "running relay = 0" "enable relay \<noteq> 0" "on_demand relay \<noteq> 0"
  shows "check_relay_stream ext config relay w =
     (if on_demand_req (w_sources (check_relay_stream_on_demand ext config relay src w) src) = 0
      then check_relay_stream_sweep ext config relay
             (check_relay_stream_on_demand ext config relay src w)
      else Inr (relay\<lparr> thread := x_thread_create ext (localmount relay) \<rparr>,
                emit [Thread_create (localmount relay)]
                  (check_relay_stream_on_demand ext config relay src w)))"
  using assms by (simp add: check_relay_stream_def Let_def)

subsection \<open>The start check of an on-demand relay\<close>

text \<open>
  Claim C5, as the code has it.  For a relay with a reserved source, not running,
  enabled and on demand, the start check calls \<^verbatim>\<open>source_update_settings\<close> only when
  the configuration has no entry for the local mount (and then with the null entry);
  in every case it raises \<open>update_settings\<close> and \<open>rescan_relays\<close> and copies the relay's
  \<open>on_demand\<close> into the source.  It sets \<open>on_demand_req\<close> of the source to 1 when the
  source has a fallback mount and the override flag and the source found for the
  fallback, between taking and releasing the read lock of the source tree, is running
  with at least one listener.  It creates the worker thread if \<open>on_demand_req\<close> is then
  non-zero; otherwise it creates no thread and goes on to the completion sweep, which
  returns.
\<close>

theorem check_relay_stream_on_demand_start:
  assumes "source relay = Some src" and "running relay = 0" and "enable relay \<noteq> 0"
    and "on_demand relay \<noteq> 0"
  shows "\<exists>w1 evs.
           w1 = w\<lparr> w_sources := (w_sources w)
                     (src := if override_demand ext config relay src w
                             then (settled_source ext config relay src w)\<lparr> on_demand_req := 1 \<rparr>
                             else settled_source ext config relay src w),
                   w_update_settings := 1, w_rescan_relays := 1,
                   w_events := w_events w @ evs \<rparr>
         \<and> evs = settings_events config relay src
                 @ override_events ext (override_demand ext config relay src w)
                     (settled_source ext config relay src w)
         \<and> ((\<exists>e \<in> set evs. is_update_settings e) \<longleftrightarrow>
               config_find_mount config (localmount relay) = None)
         \<and> (\<forall>e \<in> set evs. \<not> is_thread_create e)
         \<and> (on_demand_req (w_sources w1 src) \<noteq> 0 \<longrightarrow>
               check_relay_stream ext config relay w =
                 Inr (relay\<lparr> thread := x_thread_create ext (localmount relay) \<rparr>,
                      emit [Thread_create (localmount relay)] w1))
         \<and> (on_demand_req (w_sources w1 src) = 0 \<longrightarrow>
               check_relay_stream ext config relay w = check_relay_stream_sweep ext config relay w1
             \<and> (\<exists>r' w' evs'.
                   check_relay_stream ext config relay w = Inr (r', w')
                 \<and> w_events w' = w_events w1 @ evs'
                 \<and> (\<forall>e \<in> set evs'. \<not> is_thread_create e)))"
proof -
  define w1 where "w1 = check_relay_stream_on_demand ext config relay src w"
  define evs where "evs = settings_events config relay src
                 @ override_events ext (override_demand ext config relay src w)
                     (settled_source ext config relay src w)"
  have c: "w1 = w\<lparr> w_sources := (w_sources w)
                     (src := if override_demand ext config relay src w
                             then (settled_source ext config relay src w)\<lparr> on_demand_req := 1 \<rparr>
                             else settled_source ext config relay src w),
                   w_update_settings := 1, w_rescan_relays := 1,
                   w_events := w_events w @ evs \<rparr>"
    unfolding w1_def evs_def by (simp add: check_relay_stream_on_demand_char)
  have u: "(\<exists>e \<in> set evs. is_update_settings e) \<longleftrightarrow>
               config_find_mount config (localmount relay) = None"
    unfolding evs_def
    using settings_events_update [of config relay src]
      override_events_plain [of ext "override_demand ext config relay src w"
        "settled_source ext config relay src w"]
    by auto
  have nt: "\<forall>e \<in> set evs. \<not> is_thread_create e"
    unfolding evs_def
    using settings_events_no_thread [of config relay src]
      override_events_plain [of ext "override_demand ext config relay src w"
        "settled_source ext config relay src w"]
    by auto
  note unf = check_relay_stream_on_demand_unfold [OF assms, of ext config w, folded w1_def]
  have spawn: "check_relay_stream ext config relay w =
                 Inr (relay\<lparr> thread := x_thread_create ext (localmount relay) \<rparr>,
                      emit [Thread_create (localmount relay)] w1)"
    if "on_demand_req (w_sources w1 src) \<noteq> 0"
    using unf that by simp
  have idle: "check_relay_stream ext config relay w = check_relay_stream_sweep ext config relay w1
             \<and> (\<exists>r' w' evs'.
                   check_relay_stream ext config relay w = Inr (r', w')
                 \<and> w_events w' = w_events w1 @ evs'
                 \<and> (\<forall>e \<in> set evs'. \<not> is_thread_create e))"
    if z: "on_demand_req (w_sources w1 src) = 0"
  proof -
    have e: "check_relay_stream ext config relay w = check_relay_stream_sweep ext config relay w1"
      using unf z by simp
    have "source relay \<noteq> None" using assms(1) by simp
    from check_relay_stream_sweep_total [OF this, of ext config w1] obtain r' w' where
      r: "check_relay_stream_sweep ext config relay w1 = Inr (r', w')" by blast
    from check_relay_stream_sweep_events [OF r] e r show ?thesis by auto
  qed
  have s': "on_demand_req (w_sources w1 src) \<noteq> 0 \<longrightarrow>
               check_relay_stream ext config relay w =
                 Inr (relay\<lparr> thread := x_thread_create ext (localmount relay) \<rparr>,
                      emit [Thread_create (localmount relay)] w1)"
    using spawn by (rule impI)
  have i': "on_demand_req (w_sources w1 src) = 0 \<longrightarrow>
               check_relay_stream ext config relay w = check_relay_stream_sweep ext config relay w1
             \<and> (\<exists>r' w' evs'.
                   check_relay_stream ext config relay w = Inr (r', w')
                 \<and> w_events w' = w_events w1 @ evs'
                 \<and> (\<forall>e \<in> set evs'. \<not> is_thread_create e))"
    using idle by (rule impI)
  show ?thesis
    apply (rule exI [where x = w1])
    apply (rule exI [where x = evs])
    apply (rule conjI [OF c])
    apply (rule conjI [OF evs_def])
    apply (rule conjI [OF u])
    apply (rule conjI [OF nt])
    apply (rule conjI [OF s' i'])
    done
qed

theorem check_relay_stream_on_demand_start_witness:
  "source relay_od = Some 1 \<and> running relay_od = 0 \<and> enable relay_od \<noteq> 0 \<and>
   on_demand relay_od \<noteq> 0 \<and>
   (\<exists>w1. check_relay_stream ext_od config_od relay_od world_od_fallback =
            Inr (relay_od\<lparr> thread := Some 9 \<rparr>, emit [Thread_create ''/od''] w1)
        \<and> on_demand_req (w_sources w1 1) = 1
        \<and> w_update_settings w1 = 1 \<and> w_rescan_relays w1 = 1
        \<and> w_events w1 =
            [Stats_event ''/od'' (Some ''listeners'') (Some ''0''),
             Log DEBUG ''checking for fallback override'', Avl_tree_rlock,
             Source_find_mount ''/live'', Log DEBUG ''fallback running with listeners'',
             Avl_tree_unlock])"
proof -
  have h: "source relay_od = Some 1" "running relay_od = 0" "enable relay_od \<noteq> 0"
    "on_demand relay_od \<noteq> 0"
    by (simp_all add: relay_od_def)
  have m: "config_find_mount config_od (localmount relay_od) =
             Some \<lparr> mp_fallback_mount = Some ''/live'', mp_fallback_override = 1 \<rparr>"
    by (simp add: config_find_mount_def config_od_def relay_od_def)
  have od: "on_demand relay_od = 1" by (simp add: relay_od_def)
  have s: "settled_source ext_od config_od relay_od 1 world_od_fallback =
             source_idle\<lparr> fallback_mount := Some ''/live'', fallback_override := 1,
                          src_on_demand := 1 \<rparr>"
    by (simp add: settled_source_def m od world_od_fallback_def world_od_def)
  have d: "override_demand ext_od config_od relay_od 1 world_od_fallback"
    unfolding override_demand_def s
    by (simp add: fallback_demand_def source_idle_def ext_od_def world_od_fallback_def
          world_od_def tree_od_def source_live_def)
  have se: "settings_events config_od relay_od 1 =
              [Stats_event ''/od'' (Some ''listeners'') (Some ''0'')]"
    by (simp add: settings_events_def m) (simp add: relay_od_def)
  have oe: "override_events ext_od True
              (source_idle\<lparr> fallback_mount := Some ''/live'', fallback_override := 1,
                            src_on_demand := 1 \<rparr>) =
              [Log DEBUG ''checking for fallback override'', Avl_tree_rlock,
               Source_find_mount ''/live'', Log DEBUG ''fallback running with listeners'',
               Avl_tree_unlock]"
    by (simp add: override_events_def source_idle_def)
  have e0: "w_events world_od_fallback = []"
    by (simp add: world_od_fallback_def world_od_def)
  have x: "x_thread_create ext_od (localmount relay_od) = Some 9" "localmount relay_od = ''/od''"
    by (simp_all add: ext_od_def relay_od_def)
  from check_relay_stream_on_demand_start [OF h, of world_od_fallback ext_od config_od]
  obtain w1 evs where
    w1: "w1 = world_od_fallback\<lparr> w_sources := (w_sources world_od_fallback)
                     (1 := if override_demand ext_od config_od relay_od 1 world_od_fallback
                             then (settled_source ext_od config_od relay_od 1 world_od_fallback)\<lparr> on_demand_req := 1 \<rparr>
                             else settled_source ext_od config_od relay_od 1 world_od_fallback),
                   w_update_settings := 1, w_rescan_relays := 1,
                   w_events := w_events world_od_fallback @ evs \<rparr>"
    and evs: "evs = settings_events config_od relay_od 1
                 @ override_events ext_od (override_demand ext_od config_od relay_od 1 world_od_fallback)
                     (settled_source ext_od config_od relay_od 1 world_od_fallback)"
    and sp: "on_demand_req (w_sources w1 1) \<noteq> 0 \<longrightarrow>
               check_relay_stream ext_od config_od relay_od world_od_fallback =
                 Inr (relay_od\<lparr> thread := x_thread_create ext_od (localmount relay_od) \<rparr>,
                      emit [Thread_create (localmount relay_od)] w1)"
    by blast
  have r1: "on_demand_req (w_sources w1 1) = 1" using d by (simp add: w1)
  have r2: "w_update_settings w1 = 1" "w_rescan_relays w1 = 1" by (simp_all add: w1)
  have r3: "w_events w1 =
            [Stats_event ''/od'' (Some ''listeners'') (Some ''0''),
             Log DEBUG ''checking for fallback override'', Avl_tree_rlock,
             Source_find_mount ''/live'', Log DEBUG ''fallback running with listeners'',
             Avl_tree_unlock]"
    using d s se oe e0 by (simp add: w1 evs)
  have r4: "check_relay_stream ext_od config_od relay_od world_od_fallback =
            Inr (relay_od\<lparr> thread := Some 9 \<rparr>, emit [Thread_create ''/od''] w1)"
    using sp r1 x by simp
  show ?thesis using h r1 r2 r3 r4 by blast
qed

text \<open>
  The claim as stated has the start check refresh the settings from the configuration
  in every case.  Here the configuration has an entry for \<open>/od\<close> that names the
  fallback \<open>/live\<close> with override, \<open>/live\<close> is running with three listeners, and the
  source of the relay has no fallback yet.  A refresh would give the source the
  fallback; the check does not call \<^verbatim>\<open>source_update_settings\<close>, the source keeps
  its settings, \<open>on_demand_req\<close> stays 0 and no thread is created.
\<close>

theorem check_relay_stream_no_refresh:
  "source relay_od = Some 1 \<and> running relay_od = 0 \<and> enable relay_od \<noteq> 0 \<and>
   on_demand relay_od \<noteq> 0 \<and>
   config_find_mount config_od (localmount relay_od) =
     Some \<lparr> mp_fallback_mount = Some ''/live'', mp_fallback_override = 1 \<rparr> \<and>
   fallback_mount (x_source_update_settings ext_od config_od (w_sources world_od 1)
                     (config_find_mount config_od (localmount relay_od))) = Some ''/live'' \<and>
   check_relay_stream ext_od config_od relay_od world_od =
     Inr (relay_od,
          world_od\<lparr> w_sources := (w_sources world_od)(1 := source_idle\<lparr> src_on_demand := 1 \<rparr>),
                    w_update_settings := 1, w_rescan_relays := 1,
                    w_events := [Stats_event ''/od'' (Some ''listeners'') (Some ''0'')] \<rparr>) \<and>
   fallback_mount (source_idle\<lparr> src_on_demand := 1 \<rparr>) = None"
  by (simp add: check_relay_stream_def check_relay_stream_on_demand_def
        check_relay_stream_settings_def check_relay_stream_override_def
        check_relay_stream_sweep_def slave_rebuild_mounts_def emit_def
        relay_od_def config_od_def config_find_mount_def ext_od_def apply_mount_def
        world_od_def source_idle_def Let_def)

subsection \<open>Auxiliary facts about the fetch from the master\<close>













subsection \<open>A response of the master without a 200 status\<close>



subsection \<open>The redirect location\<close>

lemma walk_which_drop: "k < length xs \<Longrightarrow> walk_which xs (int k) = drop k xs"
proof (induction xs arbitrary: k)
  case Nil
  then show ?case by simp
next
  case (Cons x xs)
  show ?case
  proof (cases k)
    case 0
    then show ?thesis by simp
  next
    case (Suc j)
    then have "j < length xs" using Cons.prems by simp
    from Cons.IH [OF this] Suc show ?thesis by simp
  qed
qed

lemma slave_redirect_four_digit_port:
  assumes "slave_count g \<noteq> 0" and "k < length (slaves g)"
    and "0 \<le> sh_port (slaves g ! k)" and "sh_port (slaves g ! k) \<le> 9999"
  shows "slave_redirect True (int k) mountpoint g =
           Inr (1, Some (''http://'' @ sh_server (slaves g ! k) @ '':''
                           @ show_int (sh_port (slaves g ! k)) @ mountpoint))"
proof -
  have w: "walk_which (slaves g) (int k) = slaves g ! k # drop (Suc k) (slaves g)"
    using walk_which_drop [OF assms(2)] assms(2) by (simp add: Cons_nth_drop_Suc)
  have "nat (sh_port (slaves g ! k)) < 10 ^ 4" using assms(3,4) by simp
  from digits_of_length [OF _ this] assms(3)
  have "length (show_int (sh_port (slaves g ! k))) \<le> 4"
    by (simp add: show_int_def)
  then show ?thesis
    using assms(1) by (simp add: slave_redirect_def w Let_def snprintf_fits)
qed

lemma slave_redirect_nothing:
  "slave_redirect malloc_ok which mountpoint (g\<lparr> slave_count := 0 \<rparr>) = Inr (0, None)"
  "slave_count g \<noteq> 0 \<Longrightarrow> walk_which (slaves g) which \<noteq> [] \<Longrightarrow>
     slave_redirect False which mountpoint g = Inr (0, None)"
  by (auto simp: slave_redirect_def split: list.splits)

text \<open>
  Claim C8.  With a host selected and memory for the location, \<^verbatim>\<open>slave_redirect\<close>
  returns 1 and hands a location to \<^verbatim>\<open>client_send_302\<close>, but not the one the claim
  names when the port has five digits (for a port of up to four digits it is the one
  named): the buffer holds \<open>strlen (mountpoint) +
  strlen (server) + 13\<close> bytes, which leaves four characters for the port, and
  \<^verbatim>\<open>snprintf\<close> cuts the text off.  For the single host \<open>x:10000\<close> and the mount
  point \<open>/m\<close> the location sent is \<open>http://x:10000/\<close>, not \<open>http://x:10000/m\<close>.
\<close>

theorem slave_redirect_five_digit_port:
  "slave_redirect True 0 ''/m''
     \<lparr> slaves = [\<lparr> sh_server = ''x'', sh_port = 10000, sh_count = 1 \<rparr>], slave_count = 1 \<rparr>
   = Inr (1, Some ''http://x:10000/'')"
  by (simp add: slave_redirect_def snprintf_def show_int_def digits_of.simps digit_char_def)

end
